theory Spec2Isabelle
  imports Main "HOL-Library.Sublist" "HOL-Library.AList"
begin

section \<open>JavaScript values, errors and actions\<close>

text \<open>
  The values that flow through the component tree are JSON documents, plus
  \<open>undefined\<close>, which JavaScript produces for a missing property. An object
  is the list of its own properties, with distinct keys, in the order they were
  added. (JavaScript enumerates integer-like keys first; no statement below
  depends on the order of enumeration.) Numbers are only stored and compared,
  never computed with.
\<close>

datatype jsv =
    JUndefined
  | JNull
  | JBool bool
  | JNum int
  | JStr string
  | JArr "jsv list"
  | JObj "(string \<times> jsv) list"

text \<open>
  A thrown exception is a value of the model. \<open>TypeError\<close> is what the
  JavaScript runtime throws when a property of \<open>null\<close> or \<open>undefined\<close> is read
  or when a non-function is called; \<open>RoutingError\<close> is the invalid-action failure
  of the dispatch protocol.
\<close>

datatype error = TypeError | RoutingError

text \<open>
  One declared input of a library query (\<open>interface InputItem\<close>).
\<close>

record InputItem =
  name :: string
  description :: string

text \<open>
  The payload of the custom action \<open>QueryLibraryUpdateAction\<close>: the document
  of the selected library query record, or nothing while it has not arrived.
  Only its \<open>inputs\<close> entry is read.
\<close>

record dsl =
  dsl_inputs :: "InputItem list option"

text \<open>
  What the \<open>value\<close> property of an action holds: a JSON value, or the object
  \<open>{ type: "queryLibraryUpdate", dsl }\<close> built by
  \<open>customAction<QueryLibraryUpdateAction>\<close>.
\<close>

datatype avalue =
    JsonValue jsv
  | QueryLibraryUpdate "dsl option"

datatype CompActionTypes = CHANGE_VALUE | CUSTOM | OTHER

text \<open>
  An action: its kind, the path of child keys still to be followed, and its
  \<open>value\<close> property when the action has one (\<open>None\<close>: the action object has
  no such property). \<open>OTHER\<close> stands for the kinds that are neither a change
  of value nor a custom action.
\<close>

record action =
  atype :: CompActionTypes
  path :: "string list"
  avalue :: "avalue option"

text \<open>
  Modelled from the spec: the action constructors of the core package, which is
  not among the sources. An action is a kind, an optional target path and a
  payload (section 6); a change of value and a custom action are addressed to the
  node that receives them, and wrapping an action for a child puts the child's
  key in front of its path (section 4.5).
\<close>

definition changeValueAction :: "jsv \<Rightarrow> action" where
  "changeValueAction v = \<lparr>atype = CHANGE_VALUE, path = [], avalue = Some (JsonValue v)\<rparr>"

definition customAction :: "avalue \<Rightarrow> action" where
  "customAction v = \<lparr>atype = CUSTOM, path = [], avalue = Some v\<rparr>"

definition wrapChildAction :: "string \<Rightarrow> action \<Rightarrow> action" where
  "wrapChildAction k a = a\<lparr>path := k # path a\<rparr>"

definition changeChildAction :: "string \<Rightarrow> jsv \<Rightarrow> action" where
  "changeChildAction k v = wrapChildAction k (changeValueAction v)"

section \<open>The Mongo query: a tagged union over the command\<close>

subsection \<open>Commands and their schemas\<close>

definition CommandOptions :: "(string \<times> string) list" where
  "CommandOptions =
    [(''Find Document(s)'', ''FIND''),
     (''Insert Document(s)'', ''INSERT''),
     (''Update Document(s)'', ''UPDATE''),
     (''Delete Document(s)'', ''DELETE''),
     (''Count'', ''COUNT''),
     (''Distinct'', ''DISTINCT''),
     (''Aggregate'', ''AGGREGATE''),
     (''Raw'', ''RAW'')]"

definition LimitOptions :: "(string \<times> string) list" where
  "LimitOptions = [(''Single Document'', ''SINGLE''), (''All Matching Documents'', ''ALL'')]"

text \<open>The constructors of the leaf controls a command schema is built from.\<close>

datatype control =
    ParamsJsonControl
  | ParamsPositiveNumberControl
  | ParamsStringControl
  | dropdownControl "(string \<times> string) list" string

definition CommandMap :: "(string \<times> (string \<times> control) list) list" where
  "CommandMap =
    [(''FIND'',
        [(''query'', ParamsJsonControl),
         (''projection'', ParamsJsonControl),
         (''limit'', ParamsPositiveNumberControl),
         (''skip'', ParamsPositiveNumberControl),
         (''sort'', ParamsJsonControl)]),
     (''INSERT'', [(''documents'', ParamsJsonControl)]),
     (''UPDATE'',
        [(''query'', ParamsJsonControl),
         (''update'', ParamsJsonControl),
         (''limit'', dropdownControl LimitOptions ''SINGLE'')]),
     (''DELETE'',
        [(''query'', ParamsJsonControl),
         (''limit'', dropdownControl LimitOptions ''SINGLE'')]),
     (''COUNT'', [(''query'', ParamsJsonControl)]),
     (''DISTINCT'', [(''query'', ParamsJsonControl), (''key'', ParamsStringControl)]),
     (''AGGREGATE'',
        [(''arrayPipelines'', ParamsJsonControl),
         (''limit'', ParamsPositiveNumberControl)]),
     (''RAW'', [(''command'', ParamsJsonControl)])]"

subsection \<open>The node\<close>

text \<open>
  \<open>MongoQueryTmp = withTypeAndChildren(CommandMap, "FIND", { collection: ... })\<close>:
  the discriminator \<open>compType\<close>, the payload \<open>comp\<close> (one leaf per field of
  the schema registered for the discriminator, each leaf holding a value) and the
  always-present field \<open>collection\<close>.
\<close>

record MongoQuery =
  compType :: string
  comp :: "(string \<times> jsv) list"
  collection :: jsv

text \<open>
  \<open>value?.[key]\<close> on a JSON document: the own property of an object,
  \<open>undefined\<close> for a missing key and for a value that is no object.
\<close>

definition field_of :: "jsv \<Rightarrow> string \<Rightarrow> jsv" where
  "field_of v k =
     (case v of
        JObj kvs \<Rightarrow> (case map_of kvs k of Some x \<Rightarrow> x | None \<Rightarrow> JUndefined)
      | _ \<Rightarrow> JUndefined)"

text \<open>
  Modelled from the spec: the default a leaf control declares. The control
  classes (\<open>paramsControl\<close>, \<open>dropdownControl\<close>) are not among the sources; the
  spec only says that a child built without a sub-value takes "the constructor's
  default". The parameter controls start empty; a dropdown starts at the value
  given as its second argument.
\<close>

fun control_default :: "control \<Rightarrow> jsv" where
  "control_default (dropdownControl opts d) = JStr d"
| "control_default _ = JStr []"

text \<open>
  Modelled from the spec: constructing a leaf from a sub-value (section 4.2,
  "each initialized with that field's sub-value (or the constructor's default if
  absent)").
\<close>

definition new_control :: "control \<Rightarrow> jsv \<Rightarrow> jsv" where
  "new_control c v = (if v = JUndefined then control_default c else v)"

text \<open>
  Modelled from the spec: \<open>buildQueryCommand(schema)\<close>, the constructor of a
  Fixed Composite (section 4.2): one child per field of the schema, in the
  schema's order, built from that field of the input value.
\<close>

definition buildQueryCommand :: "(string \<times> control) list \<Rightarrow> jsv \<Rightarrow> (string \<times> jsv) list" where
  "buildQueryCommand schema v = map (\<lambda>(k, c). (k, new_control c (field_of v k))) schema"

text \<open>
  Modelled from the spec: the reducer of a leaf (section 4.1). A change-value
  action addressed to the leaf replaces its value; anything else leaves it as it is.
\<close>

definition leaf_reduce :: "jsv \<Rightarrow> action \<Rightarrow> jsv" where
  "leaf_reduce x a =
     (case (atype a, path a, avalue a) of
        (CHANGE_VALUE, [], Some (JsonValue v)) \<Rightarrow> v
      | _ \<Rightarrow> x)"

text \<open>
  Modelled from the spec: the reducer of the payload, a Fixed Composite (section
  4.2). A whole-value change rebuilds it from the new value; an action carrying a
  child key goes to that field's leaf, and a key the schema does not have is a
  routing error.
\<close>

definition payload_reduce ::
  "(string \<times> control) list \<Rightarrow> (string \<times> jsv) list \<Rightarrow> action \<Rightarrow> error + (string \<times> jsv) list" where
  "payload_reduce schema fs a =
     (case path a of
        [] \<Rightarrow>
          (case (atype a, avalue a) of
             (CHANGE_VALUE, Some (JsonValue v)) \<Rightarrow> Inr (buildQueryCommand schema v)
           | _ \<Rightarrow> Inr fs)
      | k # ks \<Rightarrow>
          (case map_of fs k of
             None \<Rightarrow> Inl RoutingError
           | Some x \<Rightarrow>
               Inr (map (\<lambda>(k', x'). if k' = k then (k', leaf_reduce x (a\<lparr>path := ks\<rparr>)) else (k', x')) fs)))"

text \<open>
  Modelled from the spec: the reducer of the Tagged-Union Composite built by
  \<open>withTypeAndChildren\<close>, which is not among the sources (section 4.4). The
  change of the whole value is the change-discriminator action: it stores the new
  discriminator and rebuilds the payload from the schema registered for it and
  the \<open>comp\<close> entry of the new value. Any other action is routed to the payload
  or to the extra field by its key.
\<close>

definition MongoQuery_reduce :: "MongoQuery \<Rightarrow> action \<Rightarrow> error + MongoQuery" where
  "MongoQuery_reduce n a =
     (case path a of
        [] \<Rightarrow>
          (case (atype a, avalue a) of
             (CHANGE_VALUE, Some (JsonValue v)) \<Rightarrow>
               (case field_of v ''compType'' of
                  JStr t \<Rightarrow>
                    (case map_of CommandMap t of
                       None \<Rightarrow> Inl TypeError
                     | Some schema \<Rightarrow>
                         Inr (n\<lparr>compType := t, comp := buildQueryCommand schema (field_of v ''comp'')\<rparr>))
                | _ \<Rightarrow> Inl TypeError)
           | _ \<Rightarrow> Inr n)
      | k # ks \<Rightarrow>
          (if k = ''comp'' then
             (case map_of CommandMap (compType n) of
                None \<Rightarrow> Inl TypeError
              | Some schema \<Rightarrow>
                  (case payload_reduce schema (comp n) (a\<lparr>path := ks\<rparr>) of
                     Inl e \<Rightarrow> Inl e
                   | Inr fs \<Rightarrow> Inr (n\<lparr>comp := fs\<rparr>)))
           else if k = ''collection'' then
             Inr (n\<lparr>collection := leaf_reduce (collection n) (a\<lparr>path := ks\<rparr>)\<rparr>)
           else Inl RoutingError))"

text \<open>
  The command dropdown of \<open>MongoQuery.getPropertyView\<close>:
  \<open>onChange={(value) => this.dispatch(changeValueAction({ compType: value, comp: {} }))}\<close>.
  The dispatched action comes back to the node's reducer.
\<close>

definition Commands_onChange :: "MongoQuery \<Rightarrow> string \<Rightarrow> error + MongoQuery" where
  "Commands_onChange n v =
     MongoQuery_reduce n (changeValueAction (JObj [(''compType'', JStr v), (''comp'', JObj [])]))"

text \<open>The defaults of a schema: what every field of a freshly built payload holds.\<close>

definition schema_defaults :: "(string \<times> control) list \<Rightarrow> (string \<times> jsv) list" where
  "schema_defaults schema = map (\<lambda>(k, c). (k, control_default c)) schema"

subsection \<open>The write classification\<close>

text \<open>
  \<open>action.value["compType"]\<close>. Reading a property of \<open>null\<close> or
  \<open>undefined\<close> throws; an object yields its own property or \<open>undefined\<close>;
  strings, numbers, booleans and arrays have no property of that name, nor has
  the object of a library update.
\<close>

fun get_compType :: "avalue \<Rightarrow> error + jsv" where
  "get_compType (JsonValue JUndefined) = Inl TypeError"
| "get_compType (JsonValue JNull) = Inl TypeError"
| "get_compType (JsonValue (JObj kvs)) =
     Inr (case map_of kvs ''compType'' of Some v \<Rightarrow> v | None \<Rightarrow> JUndefined)"
| "get_compType (JsonValue _) = Inr JUndefined"
| "get_compType (QueryLibraryUpdate _) = Inr JUndefined"

text \<open>lodash's \<open>includes\<close> on an array: membership by value.\<close>

definition lodash_includes :: "jsv list \<Rightarrow> jsv \<Rightarrow> bool" where
  "lodash_includes xs v = (v \<in> set xs)"

definition writeCommands :: "jsv list" where
  "writeCommands = [JStr ''INSERT'', JStr ''UPDATE'', JStr ''DELETE'', JStr ''RAW'']"

text \<open>
  \<open>MongoQuery.isWrite\<close>: \<open>"value" in action && includes([...], action.value["compType"])\<close>.
  The conjunction is short-circuit, so the property is read only when the action
  has a value. The method never reads its receiver \<open>n\<close>.
\<close>

definition isWrite :: "MongoQuery \<Rightarrow> action \<Rightarrow> error + bool" where
  "isWrite n a =
     (case avalue a of
        None \<Rightarrow> Inr False
      | Some v \<Rightarrow>
          (case get_compType v of
             Inl e \<Rightarrow> Inl e
           | Inr c \<Rightarrow> Inr (lodash_includes writeCommands c)))"


section \<open>The library query: a fixed composite over a dynamic map of inputs\<close>

subsection \<open>Objects and the store\<close>

text \<open>
  Component instances are objects with identity. The store is the list of all
  objects allocated so far; a reference is an index into it. Allocation appends,
  so an object that was never written again is found unchanged at its index, and
  two references are the same object exactly when they are equal.
\<close>

type_synonym ref = nat

text \<open>
  \<open>DataType\<close>, the persisted document of a library query, one entry per key of
  \<open>childrenMap\<close>. An absent entry reads as \<open>undefined\<close> (\<open>None\<close> for the
  record of inputs).
\<close>

record DataType =
  libraryQueryId :: jsv
  libraryQueryRecordId :: jsv
  inputs :: "(string \<times> jsv) list option"
  error :: jsv

text \<open>The children of a library query: one reference per key of \<open>childrenMap\<close>.\<close>

record LibraryQueryChildren =
  libraryQueryId_comp :: ref
  libraryQueryRecordId_comp :: ref
  inputs_comp :: ref
  error_comp :: ref

text \<open>
  The three classes of objects:
  a leaf holding a value (\<open>valueComp\<close>, \<open>stateComp\<close>, \<open>JSONValueControl\<close>);
  an \<open>InputsComp\<close> with its fields \<open>params.value\<close>, \<open>inputs\<close> and \<open>children\<close>;
  a \<open>LibraryQuery\<close> with its fields \<open>isReady\<close>, \<open>value\<close> and \<open>children\<close>.
\<close>

datatype obj =
    SimpleComp jsv
  | InputsComp "(string \<times> jsv) list option" "InputItem list" "(string \<times> ref) list"
  | LibraryQuery bool "DataType option" LibraryQueryChildren

type_synonym heap = "obj list"

definition alloc :: "obj \<Rightarrow> heap \<Rightarrow> ref \<times> heap" where
  "alloc x h = (length h, h @ [x])"

definition deref :: "heap \<Rightarrow> ref \<Rightarrow> obj option" where
  "deref h r = (if r < length h then Some (h ! r) else None)"

text \<open>
  Modelled from the spec: \<open>setFieldsNoTypeCheck(obj, fields)\<close> of
  \<open>util/objectUtils\<close>, which is not among the sources. Its callers return its
  result as the next node (\<open>return setFieldsNoTypeCheck(this, {...})\<close>), and
  section 4.5 has every reduction return a new node and never change the receiver
  in place; read that way, the helper allocates a copy of the receiver with the
  given fields replaced and returns the copy (\<open>patch\<close> computes the copy from
  the receiver). Section 9 words the same helper as mutable in-place field
  patching; that reading is \<open>patchInPlace\<close>. Which of the two the helper does
  decides whether a reduction changes its receiver, so the statements about
  persistence take the helper as a parameter (\<open>setInputs_with\<close>,
  \<open>LibraryQuery_reduce_with\<close> below).
\<close>

type_synonym setFields = "heap \<Rightarrow> ref \<Rightarrow> (obj \<Rightarrow> obj) \<Rightarrow> error + ref \<times> heap"

definition setFieldsNoTypeCheck :: "heap \<Rightarrow> ref \<Rightarrow> (obj \<Rightarrow> obj) \<Rightarrow> error + ref \<times> heap" where
  "setFieldsNoTypeCheck h r patch =
     (case deref h r of None \<Rightarrow> Inl TypeError | Some x \<Rightarrow> Inr (alloc (patch x) h))"

text \<open>
  Modelled from the spec: the same helper as section 9 words it, "mutable
  in-place field patching": the fields of the receiver are overwritten and the
  receiver is returned.
\<close>

definition patchInPlace :: setFields where
  "patchInPlace h r patch =
     (case deref h r of None \<Rightarrow> Inl TypeError | Some x \<Rightarrow> Inr (r, h[r := patch x]))"

subsection \<open>Plain objects used as maps\<close>

text \<open>
  A children map is a plain JavaScript object. Reading \<open>m[k]\<close> finds an own
  property, and otherwise whatever \<open>Object.prototype\<close> offers under that name:
  its methods, and under \<open>__proto__\<close> the prototype itself. All of these are
  truthy, and none of them is a component.
\<close>

definition Object_prototype_names :: "string list" where
  "Object_prototype_names =
     [''constructor'', ''__defineGetter__'', ''__defineSetter__'', ''hasOwnProperty'',
      ''__lookupGetter__'', ''__lookupSetter__'', ''isPrototypeOf'', ''propertyIsEnumerable'',
      ''toString'', ''valueOf'', ''__proto__'', ''toLocaleString'']"

datatype 'a lookup = Own 'a | Inherited | Absent

definition js_get :: "(string \<times> 'a) list \<Rightarrow> string \<Rightarrow> 'a lookup" where
  "js_get m k =
     (case map_of m k of
        Some x \<Rightarrow> Own x
      | None \<Rightarrow> if k \<in> set Object_prototype_names then Inherited else Absent)"

text \<open>
  The assignment \<open>m[k] = v\<close> on a plain object: an existing own property keeps
  its place, a new one goes last. Under the name \<open>__proto__\<close> the assignment
  runs the setter inherited from \<open>Object.prototype\<close> and creates no own property.
  (The setter changes the prototype of \<open>m\<close> when \<open>v\<close> is an object; the maps
  read by \<open>js_get\<close> below are the fresh ones that \<open>setInputs\<close> and the
  reducers build, whose prototype is the default one.)
\<close>

definition js_assign :: "(string \<times> 'a) list \<Rightarrow> string \<Rightarrow> 'a \<Rightarrow> (string \<times> 'a) list" where
  "js_assign m k v = (if k = ''__proto__'' then m else AList.update k v m)"

text \<open>The object literal \<open>{ ...a, ...b }\<close>: the properties of \<open>a\<close>, overridden and extended by those of \<open>b\<close>.\<close>

definition js_spread :: "(string \<times> 'a) list \<Rightarrow> (string \<times> 'a) list \<Rightarrow> (string \<times> 'a) list" where
  "js_spread a b = foldl (\<lambda>m kv. AList.update (fst kv) (snd kv) m) a b"


subsection \<open>Leaves\<close>

text \<open>
  Modelled from the spec: the constructor of a Value Node with declared default
  \<open>d\<close> (\<open>valueComp(d)\<close>, \<open>stateComp(d)\<close>; the generators are not among the
  sources). The leaf holds the given value, or the default when none is given
  (section 3, "substituting declared defaults").
\<close>

definition new_leaf :: "jsv \<Rightarrow> jsv \<Rightarrow> heap \<Rightarrow> ref \<times> heap" where
  "new_leaf d v h = alloc (SimpleComp (if v = JUndefined then d else v)) h"

text \<open>
  Modelled from the spec: \<open>JSONValueControl\<close>, a code control that is not among
  the sources, as a Value Node with a declared default. The statements below name
  the default and do not depend on which value it is, except where a concrete
  state is evaluated.
\<close>

definition JSONValueControl_default :: jsv where
  "JSONValueControl_default = JStr []"

definition new_JSONValueControl :: "jsv \<Rightarrow> heap \<Rightarrow> ref \<times> heap" where
  "new_JSONValueControl v h = new_leaf JSONValueControl_default v h"

text \<open>
  Modelled from the spec: \<open>getView\<close> and \<open>toJsonValue\<close> of a Value Node return
  the stored value unchanged (section 4.1).
\<close>

definition SimpleComp_getView :: "heap \<Rightarrow> ref \<Rightarrow> error + jsv" where
  "SimpleComp_getView h r =
     (case deref h r of Some (SimpleComp v) \<Rightarrow> Inr v | _ \<Rightarrow> Inl TypeError)"

text \<open>
  Modelled from the spec: the reducer of a Value Node (section 4.1). A
  change-value action addressed to the leaf gives a new leaf holding the new
  value; on any other action the leaf returns itself.
\<close>

definition SimpleComp_reduce :: "heap \<Rightarrow> ref \<Rightarrow> action \<Rightarrow> error + ref \<times> heap" where
  "SimpleComp_reduce h r a =
     (case deref h r of
        Some (SimpleComp x) \<Rightarrow>
          (case (atype a, path a, avalue a) of
             (CHANGE_VALUE, [], Some (JsonValue v)) \<Rightarrow> Inr (alloc (SimpleComp v) h)
           | _ \<Rightarrow> Inr (r, h))
      | _ \<Rightarrow> Inl TypeError)"

subsection \<open>InputsComp\<close>

text \<open>
  \<open>InputsComp.parseChildrenFromValue\<close>: one \<open>JSONValueControl\<close> per entry of
  \<open>params.value ?? {}\<close>, assigned to the children map under the entry's key.
\<close>

fun parseChildren_loop ::
  "(string \<times> jsv) list \<Rightarrow> (string \<times> ref) list \<Rightarrow> heap \<Rightarrow> (string \<times> ref) list \<times> heap" where
  "parseChildren_loop [] childrenMap h = (childrenMap, h)"
| "parseChildren_loop (t # ts) childrenMap h =
     (case new_JSONValueControl (snd t) h of
        (c, h') \<Rightarrow> parseChildren_loop ts (js_assign childrenMap (fst t) c) h')"

definition InputsComp_parseChildrenFromValue ::
  "(string \<times> jsv) list option \<Rightarrow> heap \<Rightarrow> (string \<times> ref) list \<times> heap" where
  "InputsComp_parseChildrenFromValue v h =
     parseChildren_loop (case v of None \<Rightarrow> [] | Some kvs \<Rightarrow> kvs) [] h"

text \<open>
  The constructor: the base class parses the children, then the fields
  \<open>inputs = []\<close> and \<open>params = params\<close> are set.
\<close>

definition new_InputsComp :: "(string \<times> jsv) list option \<Rightarrow> heap \<Rightarrow> ref \<times> heap" where
  "new_InputsComp v h =
     (case InputsComp_parseChildrenFromValue v h of
        (children, h') \<Rightarrow> alloc (InputsComp v [] children) h')"

text \<open>
  Modelled from the spec: \<open>toJsonValue\<close> of a composite, inherited from the base
  class that is not among the sources: the map of the children's values (section
  4.2, "aggregate value = map of children's values").
\<close>

fun children_toJsonValue :: "heap \<Rightarrow> (string \<times> ref) list \<Rightarrow> error + (string \<times> jsv) list" where
  "children_toJsonValue h [] = Inr []"
| "children_toJsonValue h (kc # cs) =
     (case SimpleComp_getView h (snd kc) of
        Inl e \<Rightarrow> Inl e
      | Inr v \<Rightarrow>
          (case children_toJsonValue h cs of
             Inl e \<Rightarrow> Inl e
           | Inr kvs \<Rightarrow> Inr ((fst kc, v) # kvs)))"

definition InputsComp_toJsonValue :: "heap \<Rightarrow> ref \<Rightarrow> error + (string \<times> jsv) list" where
  "InputsComp_toJsonValue h r =
     (case deref h r of
        Some (InputsComp pv ins children) \<Rightarrow> children_toJsonValue h children
      | _ \<Rightarrow> Inl TypeError)"

text \<open>
  Modelled from the spec: \<open>parseChildrenFromValueAndChildrenMap(params, childrenMap)\<close>
  of \<open>generators/multi\<close>, which is not among the sources: the construction step
  of section 4.2, one new child per key of the children map, built from that
  key's entry of the value or from the default when the value has none. Here every
  constructor in the map is \<open>JSONValueControl\<close>, so the map is given by its keys.
\<close>

fun parseChildrenFromValueAndChildrenMap ::
  "(string \<times> jsv) list \<Rightarrow> string list \<Rightarrow> heap \<Rightarrow> (string \<times> ref) list \<times> heap" where
  "parseChildrenFromValueAndChildrenMap v [] h = ([], h)"
| "parseChildrenFromValueAndChildrenMap v (k # ks) h =
     (case new_JSONValueControl (case map_of v k of Some x \<Rightarrow> x | None \<Rightarrow> JUndefined) h of
        (c, h') \<Rightarrow>
          (case parseChildrenFromValueAndChildrenMap v ks h' of
             (cs, h'') \<Rightarrow> ((k, c) # cs, h'')))"

text \<open>
  \<open>InputsComp.setInputs\<close>. The loop \<open>inputs.forEach(({ name }) => { childrenMap[name] = JSONValueControl })\<close>
  builds the children map; the value the children are parsed from is
  \<open>{ ...this.params.value, ...this.toJsonValue() }\<close>; the result is a copy of the
  receiver with \<open>children\<close> and \<open>inputs\<close> replaced.
\<close>

definition setInputs_childrenMap :: "InputItem list \<Rightarrow> (string \<times> unit) list" where
  "setInputs_childrenMap ins = foldl (\<lambda>m i. js_assign m (name i) ()) [] ins"

definition setInputs :: "heap \<Rightarrow> ref \<Rightarrow> InputItem list \<Rightarrow> error + ref \<times> heap" where
  "setInputs h r ins =
     (case deref h r of
        Some (InputsComp pv old children) \<Rightarrow>
          (case children_toJsonValue h children of
             Inl e \<Rightarrow> Inl e
           | Inr json \<Rightarrow>
               (case parseChildrenFromValueAndChildrenMap
                       (js_spread (case pv of None \<Rightarrow> [] | Some kvs \<Rightarrow> kvs) json)
                       (map fst (setInputs_childrenMap ins)) h of
                  (children', h') \<Rightarrow>
                    setFieldsNoTypeCheck h' r (\<lambda>this. InputsComp pv ins children')))
      | _ \<Rightarrow> Inl TypeError)"

text \<open>
  \<open>InputsComp.getPropertyView\<close>. With no declared input the "no input"
  placeholder is rendered. Otherwise each declared input is looked up in the
  children map: a falsy result renders \<open>null\<close>; anything else is taken for a
  component and its \<open>propertyView\<close> is called with the input's name as label and
  its description as tooltip. A member inherited from \<open>Object.prototype\<close> has no
  \<open>propertyView\<close>, and calling it throws.
\<close>

datatype entry = NullEntry | Editor string string ref

datatype inputs_view = NoInputs | Entries "entry list"

fun render_inputs :: "(string \<times> ref) list \<Rightarrow> InputItem list \<Rightarrow> error + entry list" where
  "render_inputs children [] = Inr []"
| "render_inputs children (i # rest) =
     (case js_get children (name i) of
        Inherited \<Rightarrow> Inl TypeError
      | Absent \<Rightarrow>
          (case render_inputs children rest of Inl e \<Rightarrow> Inl e | Inr es \<Rightarrow> Inr (NullEntry # es))
      | Own c \<Rightarrow>
          (case render_inputs children rest of
             Inl e \<Rightarrow> Inl e
           | Inr es \<Rightarrow> Inr (Editor (name i) (description i) c # es)))"

definition InputsComp_getPropertyView :: "heap \<Rightarrow> ref \<Rightarrow> error + inputs_view" where
  "InputsComp_getPropertyView h r =
     (case deref h r of
        Some (InputsComp pv ins children) \<Rightarrow>
          (if length ins = 0 then Inr NoInputs
           else (case render_inputs children ins of Inl e \<Rightarrow> Inl e | Inr es \<Rightarrow> Inr (Entries es)))
      | _ \<Rightarrow> Inl TypeError)"

text \<open>
  A JSON value read as a record of entries: an object has its entries, and
  \<open>undefined\<close>, \<open>null\<close>, numbers and booleans have none.
\<close>

definition record_of :: "jsv \<Rightarrow> (string \<times> jsv) list option" where
  "record_of v = (case v of JObj kvs \<Rightarrow> Some kvs | _ \<Rightarrow> None)"

text \<open>
  Modelled from the spec: the reducer \<open>InputsComp\<close> inherits from the base class
  (section 4.2). A whole-value change rebuilds the children from the new value
  with the node's own \<open>parseChildrenFromValue\<close>; an action carrying a child key
  is delegated to that child and the result spliced into a copy of the node,
  unless the child returned itself: then there is nothing to splice and the node
  returns itself (section 4.5, a no-op is a pointer-equal result); a key that
  names no child is a routing error; anything else is a no-op that returns the
  node itself.
\<close>

definition InputsComp_reduce :: "heap \<Rightarrow> ref \<Rightarrow> action \<Rightarrow> error + ref \<times> heap" where
  "InputsComp_reduce h r a =
     (case deref h r of
        Some (InputsComp pv ins children) \<Rightarrow>
          (case path a of
             [] \<Rightarrow>
               (case (atype a, avalue a) of
                  (CHANGE_VALUE, Some (JsonValue v)) \<Rightarrow>
                    (case InputsComp_parseChildrenFromValue (record_of v) h of
                       (children', h') \<Rightarrow>
                         setFieldsNoTypeCheck h' r (\<lambda>this. InputsComp pv ins children'))
                | _ \<Rightarrow> Inr (r, h))
           | k # ks \<Rightarrow>
               (case map_of children k of
                  None \<Rightarrow> Inl RoutingError
                | Some c \<Rightarrow>
                    (case SimpleComp_reduce h c (a\<lparr>path := ks\<rparr>) of
                       Inl e \<Rightarrow> Inl e
                     | Inr (c', h') \<Rightarrow>
                         if c' = c then Inr (r, h')
                         else setFieldsNoTypeCheck h' r
                                (\<lambda>this. InputsComp pv ins (AList.update k c' children)))))
      | _ \<Rightarrow> Inl TypeError)"

subsection \<open>LibraryQuery\<close>

text \<open>
  Modelled from the spec: the constructor of the Fixed Composite
  \<open>simpleMultiComp(childrenMap)\<close> (section 4.2), for the children map of the
  source: \<open>libraryQueryId: valueComp("")\<close>, \<open>libraryQueryRecordId: valueComp("latest")\<close>,
  \<open>inputs: InputsComp\<close>, \<open>error: stateComp("")\<close>. Each child is built from its
  entry of the value.
\<close>

definition LibraryQueryBase_parseChildrenFromValue ::
  "DataType option \<Rightarrow> heap \<Rightarrow> LibraryQueryChildren \<times> heap" where
  "LibraryQueryBase_parseChildrenFromValue v h =
     (case new_leaf (JStr []) (case v of None \<Rightarrow> JUndefined | Some d \<Rightarrow> libraryQueryId d) h of
        (c1, h1) \<Rightarrow>
     (case new_leaf (JStr ''latest'') (case v of None \<Rightarrow> JUndefined | Some d \<Rightarrow> libraryQueryRecordId d) h1 of
        (c2, h2) \<Rightarrow>
     (case new_InputsComp (case v of None \<Rightarrow> None | Some d \<Rightarrow> inputs d) h2 of
        (c3, h3) \<Rightarrow>
     (case new_leaf (JStr []) (case v of None \<Rightarrow> JUndefined | Some d \<Rightarrow> error d) h3 of
        (c4, h4) \<Rightarrow>
          (\<lparr>libraryQueryId_comp = c1, libraryQueryRecordId_comp = c2,
            inputs_comp = c3, error_comp = c4\<rparr>, h4)))))"

text \<open>
  The constructor of \<open>LibraryQuery\<close>: \<open>super(params)\<close>, then
  \<open>this.value = params.value\<close>; \<open>isReady\<close> starts \<open>false\<close>.
\<close>

definition new_LibraryQuery :: "DataType option \<Rightarrow> heap \<Rightarrow> ref \<times> heap" where
  "new_LibraryQuery v h =
     (case LibraryQueryBase_parseChildrenFromValue v h of
        (children, h') \<Rightarrow> alloc (LibraryQuery False v children) h')"

text \<open>
  Modelled from the spec: \<open>super.toJsonValue()\<close>, the aggregate of the
  children's values (section 4.2).
\<close>

definition LibraryQueryBase_toJsonValue :: "heap \<Rightarrow> LibraryQueryChildren \<Rightarrow> error + DataType" where
  "LibraryQueryBase_toJsonValue h children =
     (case SimpleComp_getView h (libraryQueryId_comp children) of
        Inl e \<Rightarrow> Inl e
      | Inr v1 \<Rightarrow>
     (case SimpleComp_getView h (libraryQueryRecordId_comp children) of
        Inl e \<Rightarrow> Inl e
      | Inr v2 \<Rightarrow>
     (case InputsComp_toJsonValue h (inputs_comp children) of
        Inl e \<Rightarrow> Inl e
      | Inr kvs \<Rightarrow>
     (case SimpleComp_getView h (error_comp children) of
        Inl e \<Rightarrow> Inl e
      | Inr v4 \<Rightarrow>
          Inr \<lparr>libraryQueryId = v1, libraryQueryRecordId = v2, inputs = Some kvs, error = v4\<rparr>))))"

text \<open>
  \<open>LibraryQuery.toJsonValue\<close>: once ready, the aggregate; before, the
  aggregate with \<open>inputs\<close> replaced by \<open>this.value?.inputs\<close>.
\<close>

definition LibraryQuery_toJsonValue :: "heap \<Rightarrow> ref \<Rightarrow> error + DataType" where
  "LibraryQuery_toJsonValue h r =
     (case deref h r of
        Some (LibraryQuery isReady v children) \<Rightarrow>
          (case LibraryQueryBase_toJsonValue h children of
             Inl e \<Rightarrow> Inl e
           | Inr j \<Rightarrow>
               Inr (if isReady then j
                    else j\<lparr>inputs := (case v of None \<Rightarrow> None | Some d \<Rightarrow> inputs d)\<rparr>))
      | _ \<Rightarrow> Inl TypeError)"

text \<open>A JSON value read as the document of a library query.\<close>

definition DataType_of :: "jsv \<Rightarrow> DataType option" where
  "DataType_of v =
     (case v of
        JObj kvs \<Rightarrow>
          Some \<lparr>libraryQueryId = field_of v ''libraryQueryId'',
                libraryQueryRecordId = field_of v ''libraryQueryRecordId'',
                inputs = record_of (field_of v ''inputs''),
                error = field_of v ''error''\<rparr>
      | _ \<Rightarrow> None)"

definition child_of :: "LibraryQueryChildren \<Rightarrow> string \<Rightarrow> ref option" where
  "child_of children k =
     (if k = ''libraryQueryId'' then Some (libraryQueryId_comp children)
      else if k = ''libraryQueryRecordId'' then Some (libraryQueryRecordId_comp children)
      else if k = ''inputs'' then Some (inputs_comp children)
      else if k = ''error'' then Some (error_comp children)
      else None)"

definition set_child :: "LibraryQueryChildren \<Rightarrow> string \<Rightarrow> ref \<Rightarrow> LibraryQueryChildren" where
  "set_child children k c =
     (if k = ''libraryQueryId'' then children\<lparr>libraryQueryId_comp := c\<rparr>
      else if k = ''libraryQueryRecordId'' then children\<lparr>libraryQueryRecordId_comp := c\<rparr>
      else if k = ''inputs'' then children\<lparr>inputs_comp := c\<rparr>
      else if k = ''error'' then children\<lparr>error_comp := c\<rparr>
      else children)"

text \<open>The method call \<open>child.reduce(action)\<close>, dispatched on the class of the child.\<close>

definition child_reduce :: "heap \<Rightarrow> ref \<Rightarrow> action \<Rightarrow> error + ref \<times> heap" where
  "child_reduce h c a =
     (case deref h c of
        Some (SimpleComp x) \<Rightarrow> SimpleComp_reduce h c a
      | Some (InputsComp pv ins children) \<Rightarrow> InputsComp_reduce h c a
      | _ \<Rightarrow> Inl TypeError)"

text \<open>
  Modelled from the spec: \<open>super.reduce(action)\<close>, the reducer of a Fixed
  Composite (sections 4.2 and 4.5), which is not among the sources. An action
  that carries a child key is delegated to that child's reducer and the result is
  spliced into a copy of the node, every other child staying the reference it
  was; when the child returned itself there is nothing to splice and the node
  returns itself (section 4.5, a no-op is a pointer-equal result); a key outside
  the schema is rejected with a routing error; a whole-value change rebuilds the
  children from the new value; any other action is a no-op that returns the node
  itself.
\<close>

definition LibraryQueryBase_reduce :: "heap \<Rightarrow> ref \<Rightarrow> action \<Rightarrow> error + ref \<times> heap" where
  "LibraryQueryBase_reduce h r a =
     (case deref h r of
        Some (LibraryQuery isReady v children) \<Rightarrow>
          (case path a of
             [] \<Rightarrow>
               (case (atype a, avalue a) of
                  (CHANGE_VALUE, Some (JsonValue x)) \<Rightarrow>
                    (case LibraryQueryBase_parseChildrenFromValue (DataType_of x) h of
                       (children', h') \<Rightarrow>
                         setFieldsNoTypeCheck h' r (\<lambda>this. LibraryQuery isReady v children'))
                | _ \<Rightarrow> Inr (r, h))
           | k # ks \<Rightarrow>
               (case child_of children k of
                  None \<Rightarrow> Inl RoutingError
                | Some c \<Rightarrow>
                    (case child_reduce h c (a\<lparr>path := ks\<rparr>) of
                       Inl e \<Rightarrow> Inl e
                     | Inr (c', h') \<Rightarrow>
                         if c' = c then Inr (r, h')
                         else setFieldsNoTypeCheck h' r
                                (\<lambda>this. LibraryQuery isReady v (set_child children k c')))))
      | _ \<Rightarrow> Inl TypeError)"

text \<open>
  Modelled from the spec: \<open>isMyCustomAction<QueryLibraryUpdateAction>(action, "queryLibraryUpdate")\<close>
  of the core package: a custom action addressed to this node (an action
  addressed to a descendant is passed on, section 6) whose value has that type
  tag.
\<close>

definition isMyCustomAction_queryLibraryUpdate :: "action \<Rightarrow> bool" where
  "isMyCustomAction_queryLibraryUpdate a =
     (path a = [] \<and> atype a = CUSTOM \<and>
      (case avalue a of Some (QueryLibraryUpdate d) \<Rightarrow> True | _ \<Rightarrow> False))"

text \<open>\<open>action.value?.dsl?.["inputs"] ?? []\<close>.\<close>

definition action_dsl_inputs :: "action \<Rightarrow> InputItem list" where
  "action_dsl_inputs a =
     (case avalue a of
        Some (QueryLibraryUpdate (Some d)) \<Rightarrow> (case dsl_inputs d of Some ins \<Rightarrow> ins | None \<Rightarrow> [])
      | _ \<Rightarrow> [])"

text \<open>
  \<open>LibraryQuery.reduce\<close>: a library update sets the inputs of the
  \<open>inputs\<close> child and returns a copy of the node with
  \<open>children: { ...this.children, inputs }\<close> and \<open>isReady: true\<close>; every other
  action goes to \<open>super.reduce\<close>.
\<close>

definition LibraryQuery_reduce :: "heap \<Rightarrow> ref \<Rightarrow> action \<Rightarrow> error + ref \<times> heap" where
  "LibraryQuery_reduce h r a =
     (if isMyCustomAction_queryLibraryUpdate a then
        (case deref h r of
           Some (LibraryQuery isReady v children) \<Rightarrow>
             (case setInputs h (inputs_comp children) (action_dsl_inputs a) of
                Inl e \<Rightarrow> Inl e
              | Inr (inputs', h') \<Rightarrow>
                  setFieldsNoTypeCheck h' r
                    (\<lambda>this. LibraryQuery True v (children\<lparr>inputs_comp := inputs'\<rparr>)))
         | _ \<Rightarrow> Inl TypeError)
      else LibraryQueryBase_reduce h r a)"

subsection \<open>The property view\<close>




text \<open>
  The method call \<open>n.reduce(action)\<close> on any node, dispatched on the class of
  the receiver.
\<close>

definition Comp_reduce :: "heap \<Rightarrow> ref \<Rightarrow> action \<Rightarrow> error + ref \<times> heap" where
  "Comp_reduce h n a =
     (case deref h n of
        Some (SimpleComp x) \<Rightarrow> SimpleComp_reduce h n a
      | Some (InputsComp pv ins children) \<Rightarrow> InputsComp_reduce h n a
      | Some (LibraryQuery isReady v children) \<Rightarrow> LibraryQuery_reduce h n a
      | None \<Rightarrow> Inl TypeError)"

subsection \<open>The helper and the inherited reducer as parameters\<close>

text \<open>
  \<open>InputsComp.setInputs\<close> and \<open>LibraryQuery.reduce\<close> once more, line by line
  as above, with the two functions they call that are not among the sources taken
  as parameters: \<open>setFieldsNoTypeCheck\<close>, and for the reducer \<open>super.reduce\<close>.
  With the copying helper and the reducer of the base class they are
  \<open>setInputs\<close> and \<open>LibraryQuery_reduce\<close>.
\<close>

type_synonym reducer = "heap \<Rightarrow> ref \<Rightarrow> action \<Rightarrow> error + ref \<times> heap"

definition setInputs_with :: "setFields \<Rightarrow> heap \<Rightarrow> ref \<Rightarrow> InputItem list \<Rightarrow> error + ref \<times> heap" where
  "setInputs_with setFields h r ins =
     (case deref h r of
        Some (InputsComp pv old children) \<Rightarrow>
          (case children_toJsonValue h children of
             Inl e \<Rightarrow> Inl e
           | Inr json \<Rightarrow>
               (case parseChildrenFromValueAndChildrenMap
                       (js_spread (case pv of None \<Rightarrow> [] | Some kvs \<Rightarrow> kvs) json)
                       (map fst (setInputs_childrenMap ins)) h of
                  (children', h') \<Rightarrow>
                    setFields h' r (\<lambda>this. InputsComp pv ins children')))
      | _ \<Rightarrow> Inl TypeError)"

definition LibraryQuery_reduce_with ::
  "setFields \<Rightarrow> reducer \<Rightarrow> heap \<Rightarrow> ref \<Rightarrow> action \<Rightarrow> error + ref \<times> heap" where
  "LibraryQuery_reduce_with setFields super_reduce h r a =
     (if isMyCustomAction_queryLibraryUpdate a then
        (case deref h r of
           Some (LibraryQuery isReady v children) \<Rightarrow>
             (case setInputs_with setFields h (inputs_comp children) (action_dsl_inputs a) of
                Inl e \<Rightarrow> Inl e
              | Inr (inputs', h') \<Rightarrow>
                  setFields h' r
                    (\<lambda>this. LibraryQuery True v (children\<lparr>inputs_comp := inputs'\<rparr>)))
         | _ \<Rightarrow> Inl TypeError)
      else super_reduce h r a)"

subsection \<open>Vocabulary of the statements\<close>

text \<open>
  A call that starts in store \<open>h\<close> on node \<open>r\<close> and returns node \<open>r'\<close> in store
  \<open>h'\<close> only grows the store when \<open>h'\<close> extends \<open>h\<close> and the result is either
  the receiver itself, with nothing allocated, or an object allocated by the call.
\<close>

definition grows :: "heap \<Rightarrow> ref \<Rightarrow> ref \<Rightarrow> heap \<Rightarrow> bool" where
  "grows h r r' h' = (prefix h h' \<and> (r' = r \<and> h' = h \<or> length h \<le> r' \<and> r' < length h'))"

text \<open>
  Every object of the store \<open>h\<close> is still the same object in \<open>h'\<close>: nothing
  was changed in place. A method is persistent when every call of it that returns
  leaves the store so.
\<close>

definition unchanged :: "heap \<Rightarrow> heap \<Rightarrow> bool" where
  "unchanged h h' = (\<forall>p x. deref h p = Some x \<longrightarrow> deref h' p = Some x)"

definition persistent :: "(heap \<Rightarrow> ref \<Rightarrow> 'a \<Rightarrow> error + ref \<times> heap) \<Rightarrow> bool" where
  "persistent f = (\<forall>h n a r h'. f h n a = Inr (r, h') \<longrightarrow> unchanged h h')"

text \<open>An action that asks the node it reaches to replace its whole value.\<close>

definition changes_value :: "action \<Rightarrow> bool" where
  "changes_value a =
     (atype a = CHANGE_VALUE \<and> path a = [] \<and>
      (case avalue a of Some (JsonValue v) \<Rightarrow> True | _ \<Rightarrow> False))"





text \<open>Concrete states for the examples.\<close>

definition example_V :: DataType where
  "example_V =
     \<lparr>libraryQueryId = JStr ''q1'', libraryQueryRecordId = JStr ''latest'',
      inputs = Some [(''a'', JStr ''1'')], error = JStr []\<rparr>"

definition example_heap :: heap where
  "example_heap =
     [SimpleComp (JStr ''q1''), SimpleComp (JStr ''latest''), SimpleComp (JStr ''1''),
      InputsComp (Some [(''a'', JStr ''1'')]) [] [(''a'', 2)],
      SimpleComp (JStr []),
      LibraryQuery False (Some example_V)
        \<lparr>libraryQueryId_comp = 0, libraryQueryRecordId_comp = 1, inputs_comp = 3, error_comp = 4\<rparr>]"

definition example_dsl :: dsl where
  "example_dsl = \<lparr>dsl_inputs = Some [\<lparr>name = ''a'', description = ''first''\<rparr>]\<rparr>"

text \<open>The store after the library query at 5 has received the update carrying \<open>example_dsl\<close>: the node is now at 8.\<close>

definition example_ready_heap :: heap where
  "example_ready_heap =
     example_heap @
     [SimpleComp (JStr ''1''),
      InputsComp (Some [(''a'', JStr ''1'')]) [\<lparr>name = ''a'', description = ''first''\<rparr>] [(''a'', 6)],
      LibraryQuery True (Some example_V)
        \<lparr>libraryQueryId_comp = 0, libraryQueryRecordId_comp = 1, inputs_comp = 7, error_comp = 4\<rparr>]"


text \<open>An action of a kind no node recognises, addressed to the child \<open>libraryQueryId\<close>.\<close>

definition example_other :: action where
  "example_other = \<lparr>atype = OTHER, path = [''libraryQueryId''], avalue = None\<rparr>"


text \<open>
  An \<open>InputsComp\<close> built from three persisted inputs, then given the inputs
  \<open>a\<close> and \<open>b\<close>, then edited at \<open>a\<close>: the node is at 8, its child \<open>a\<close> at 7.
\<close>

definition item_a :: InputItem where
  "item_a = \<lparr>name = ''a'', description = ''first''\<rparr>"

definition item_b :: InputItem where
  "item_b = \<lparr>name = ''b'', description = ''second''\<rparr>"

definition item_c :: InputItem where
  "item_c = \<lparr>name = ''c'', description = ''third''\<rparr>"

definition example_inputs_value :: "(string \<times> jsv) list option" where
  "example_inputs_value = Some [(''a'', JStr ''1''), (''b'', JStr ''2''), (''c'', JStr ''9'')]"

definition example_inputs_heap :: heap where
  "example_inputs_heap =
     [SimpleComp (JStr ''1''), SimpleComp (JStr ''2''), SimpleComp (JStr ''9''),
      InputsComp example_inputs_value [] [(''a'', 0), (''b'', 1), (''c'', 2)],
      SimpleComp (JStr ''1''), SimpleComp (JStr ''2''),
      InputsComp example_inputs_value [item_a, item_b] [(''a'', 4), (''b'', 5)],
      SimpleComp (JStr ''edited''),
      InputsComp example_inputs_value [item_a, item_b] [(''a'', 7), (''b'', 5)]]"

text \<open>
  A new \<open>InputsComp\<close> (at 0), given the input \<open>a\<close> (the node is then at 2),
  then reduced with a change of its whole value to the empty object: the node is
  at 3, with the input \<open>a\<close> still declared and no child left.
\<close>

definition example_emptied_heap :: heap where
  "example_emptied_heap =
     [InputsComp None [] [],
      SimpleComp (JStr []),
      InputsComp None [item_a] [(''a'', 1)],
      InputsComp None [item_a] []]"

section \<open>Properties of the Mongo query\<close>

lemma isWrite_no_value: "avalue a = None \<Longrightarrow> isWrite n a = Inr False"
  by (simp add: isWrite_def)

lemma isWrite_receiver: "isWrite n a = isWrite n' a"
  by (simp add: isWrite_def)

lemma isWrite_compType_absent:
  "get_compType v = Inr c \<Longrightarrow> c \<notin> set writeCommands \<Longrightarrow> avalue a = Some v \<Longrightarrow>
     isWrite n a = Inr False"
  by (simp add: isWrite_def lodash_includes_def)

lemma buildQueryCommand_empty: "buildQueryCommand schema (JObj []) = schema_defaults schema"
  by (simp add: buildQueryCommand_def schema_defaults_def field_of_def new_control_def)

text \<open>
  C7. For a change of the whole value whose value is an object with a
  \<open>compType\<close> entry, \<open>isWrite\<close> returns true exactly when that entry is one of
  INSERT, UPDATE, DELETE, RAW. The discriminators of the command table are those of
  the command options, and each of the eight is classified: FIND, COUNT, DISTINCT
  and AGGREGATE as reads, the other four as writes.
\<close>

theorem isWrite_partitions_commands:
  "(map_of kvs ''compType'' = Some v \<longrightarrow>
      isWrite n \<lparr>atype = CHANGE_VALUE, path = p, avalue = Some (JsonValue (JObj kvs))\<rparr>
        = Inr (v \<in> {JStr ''INSERT'', JStr ''UPDATE'', JStr ''DELETE'', JStr ''RAW''}))
   \<and> map fst CommandMap = map snd CommandOptions
   \<and> map (\<lambda>c. (c, isWrite n (changeValueAction (JObj [(''compType'', JStr c), (''comp'', JObj [])]))))
         (map fst CommandMap)
       = [(''FIND'', Inr False), (''INSERT'', Inr True), (''UPDATE'', Inr True),
          (''DELETE'', Inr True), (''COUNT'', Inr False), (''DISTINCT'', Inr False),
          (''AGGREGATE'', Inr False), (''RAW'', Inr True)]"
  by (simp add: isWrite_def lodash_includes_def writeCommands_def CommandMap_def
      CommandOptions_def changeValueAction_def)

theorem isWrite_partitions_commands_witness:
  "map_of [(''compType'', JStr ''DELETE''), (''comp'', JObj [])] ''compType'' = Some (JStr ''DELETE'')
   \<and> isWrite \<lparr>compType = ''FIND'', comp = [], collection = JStr ''users''\<rparr>
        \<lparr>atype = CHANGE_VALUE, path = [],
         avalue = Some (JsonValue (JObj [(''compType'', JStr ''DELETE''), (''comp'', JObj [])]))\<rparr>
       = Inr True"
  using isWrite_partitions_commands
    [of "[(''compType'', JStr ''DELETE''), (''comp'', JObj [])]" "JStr ''DELETE''"
      "\<lparr>compType = ''FIND'', comp = [], collection = JStr ''users''\<rparr>" "[]"]
  by simp

text \<open>
  C9, at the input where the code and the claim part: an action whose
  \<open>value\<close> property is \<open>null\<close> has the property, so the guard \<open>"value" in action\<close>
  passes, and reading \<open>compType\<close> from \<open>null\<close> throws a TypeError instead of
  giving \<open>false\<close>. (Without a value, and for a value whose \<open>compType\<close> can be
  read and is no write command, the result is \<open>false\<close> whatever the receiver:
  \<open>isWrite_no_value\<close>, \<open>isWrite_compType_absent\<close>, \<open>isWrite_receiver\<close>.)
\<close>

theorem isWrite_null_value_throws:
  "isWrite \<lparr>compType = ''INSERT'', comp = [], collection = JStr ''users''\<rparr>
     (changeValueAction JNull) = Inl TypeError"
  by (simp add: isWrite_def changeValueAction_def)

text \<open>
  C1. Whatever the node's discriminator and payload, choosing command \<open>b\<close> in
  the dropdown stores \<open>b\<close> as the discriminator and rebuilds the payload from the
  schema registered for \<open>b\<close> and the empty value carried by the action: the
  payload has exactly the fields of that schema, each holding its control's
  default.
\<close>

theorem change_command_clears_payload:
  "map_of CommandMap b = Some schema \<Longrightarrow>
     (\<exists>n'. Commands_onChange n b = Inr n' \<and> compType n' = b \<and> comp n' = schema_defaults schema
        \<and> map fst (comp n') = map fst schema
        \<and> (\<forall>k x. (k, x) \<in> set (comp n') \<longrightarrow> (\<exists>c. (k, c) \<in> set schema \<and> x = control_default c)))"
  by (auto simp add: Commands_onChange_def MongoQuery_reduce_def changeValueAction_def field_of_def
      buildQueryCommand_empty schema_defaults_def)

theorem change_command_clears_payload_witness:
  "map_of CommandMap ''INSERT'' = Some [(''documents'', ParamsJsonControl)]
   \<and> Commands_onChange
        \<lparr>compType = ''FIND'',
         comp = [(''query'', JStr ''{rating: 9}''), (''projection'', JStr ''{name: 1}''),
                 (''limit'', JStr ''10''), (''skip'', JStr ''0''), (''sort'', JStr ''{name: 1}'')],
         collection = JStr ''users''\<rparr> ''INSERT''
       = Inr \<lparr>compType = ''INSERT'', comp = [(''documents'', JStr [])], collection = JStr ''users''\<rparr>"
proof -
  have s: "map_of CommandMap ''INSERT'' = Some [(''documents'', ParamsJsonControl)]"
    by (simp add: CommandMap_def)
  from change_command_clears_payload [OF s, of
      "\<lparr>compType = ''FIND'',
         comp = [(''query'', JStr ''{rating: 9}''), (''projection'', JStr ''{name: 1}''),
                 (''limit'', JStr ''10''), (''skip'', JStr ''0''), (''sort'', JStr ''{name: 1}'')],
         collection = JStr ''users''\<rparr>"]
  obtain n' where n': "Commands_onChange
        \<lparr>compType = ''FIND'',
         comp = [(''query'', JStr ''{rating: 9}''), (''projection'', JStr ''{name: 1}''),
                 (''limit'', JStr ''10''), (''skip'', JStr ''0''), (''sort'', JStr ''{name: 1}'')],
         collection = JStr ''users''\<rparr> ''INSERT'' = Inr n'"
    and "compType n' = ''INSERT''" and "comp n' = schema_defaults [(''documents'', ParamsJsonControl)]"
    by blast
  moreover have "collection n' = JStr ''users''"
    using n' by (simp add: Commands_onChange_def MongoQuery_reduce_def changeValueAction_def
        field_of_def CommandMap_def split: sum.splits) auto
  ultimately have "n' = \<lparr>compType = ''INSERT'', comp = [(''documents'', JStr [])], collection = JStr ''users''\<rparr>"
    by (cases n') (simp add: schema_defaults_def)
  with n' s show ?thesis by simp
qed

section \<open>The store only grows\<close>

lemma deref_append_old: "r < length h \<Longrightarrow> deref (h @ xs) r = deref h r"
  by (simp add: deref_def nth_append)

lemma deref_append_new: "deref (h @ [x]) (length h) = Some x"
  by (simp add: deref_def)

lemma deref_Some_less: "deref h r = Some x \<Longrightarrow> r < length h"
  by (simp add: deref_def split: if_splits)

lemma deref_prefix: "prefix h h' \<Longrightarrow> deref h r = Some x \<Longrightarrow> deref h' r = Some x"
  by (auto simp add: prefix_def deref_def nth_append split: if_splits)

lemma parseChildren_loop_prefix:
  "parseChildren_loop ts cm h = (cm', h') \<Longrightarrow> prefix h h'"
proof (induction ts arbitrary: cm h)
  case Nil
  then show ?case by simp
next
  case (Cons t ts)
  from Cons.prems have "parseChildren_loop ts (js_assign cm (fst t) (length h))
      (h @ [SimpleComp (if snd t = JUndefined then JSONValueControl_default else snd t)]) = (cm', h')"
    by (simp add: new_JSONValueControl_def new_leaf_def alloc_def)
  from Cons.IH [OF this] show ?case
    by (rule append_prefixD)
qed

lemma parseChildrenFromValueAndChildrenMap_closed:
  "parseChildrenFromValueAndChildrenMap v ks h =
     (zip ks [length h ..< length h + length ks],
      h @ map (\<lambda>k. SimpleComp (case map_of v k of Some x \<Rightarrow> if x = JUndefined then JSONValueControl_default else x
                                   | None \<Rightarrow> JSONValueControl_default)) ks)"
proof (induction ks arbitrary: h)
  case Nil
  then show ?case by simp
next
  case (Cons k ks)
  have up: "[length h ..< length h + length (k # ks)] = length h # [Suc (length h) ..< Suc (length h) + length ks]"
    by (subst upt_rec) simp
  show ?case
    unfolding up
    by (simp add: Cons.IH new_JSONValueControl_def new_leaf_def alloc_def split: option.splits)
qed

lemma setFields_eq:
  "setFieldsNoTypeCheck h r p = Inr (r', h') \<longleftrightarrow> (\<exists>x. deref h r = Some x \<and> r' = length h \<and> h' = h @ [p x])"
  by (auto simp add: setFieldsNoTypeCheck_def alloc_def split: option.splits)

lemma SimpleComp_reduce_grows:
  "SimpleComp_reduce h r a = Inr (r', h') \<Longrightarrow> grows h r r' h'"
  by (auto simp add: SimpleComp_reduce_def grows_def alloc_def
      split: option.splits obj.splits CompActionTypes.splits list.splits avalue.splits)

lemma SimpleComp_reduce_same:
  "SimpleComp_reduce h c a = Inr (c, h1) \<Longrightarrow> h1 = h"
  by (auto simp add: SimpleComp_reduce_def alloc_def deref_def
      split: option.splits obj.splits CompActionTypes.splits list.splits avalue.splits if_splits)

lemma InputsComp_reduce_child:
  assumes "InputsComp_reduce h r a = Inr (r', h')"
    and "deref h r = Some (InputsComp pv ins cs)" and "path a = k # ks"
  shows "\<exists>c c' h1. map_of cs k = Some c \<and> SimpleComp_reduce h c (a\<lparr>path := ks\<rparr>) = Inr (c', h1)
           \<and> (c' = c \<and> r' = r \<and> h' = h \<and> h1 = h
                \<or> c' \<noteq> c \<and> setFieldsNoTypeCheck h1 r (\<lambda>this. InputsComp pv ins (AList.update k c' cs))
                              = Inr (r', h'))"
proof -
  from assms obtain c where c: "map_of cs k = Some c"
    by (auto simp add: InputsComp_reduce_def split: option.splits)
  with assms obtain c' h1 where s: "SimpleComp_reduce h c (a\<lparr>path := ks\<rparr>) = Inr (c', h1)"
    by (auto simp add: InputsComp_reduce_def split: sum.splits)
  show ?thesis
  proof (cases "c' = c")
    case True
    with s have "h1 = h" by (simp add: SimpleComp_reduce_same)
    with assms c s True show ?thesis by (simp add: InputsComp_reduce_def)
  next
    case False
    with assms c s show ?thesis by (simp add: InputsComp_reduce_def)
  qed
qed

lemma InputsComp_reduce_grows:
  "InputsComp_reduce h r a = Inr (r', h') \<Longrightarrow> grows h r r' h'"
proof -
  assume a: "InputsComp_reduce h r a = Inr (r', h')"
  then obtain pv ins cs where d: "deref h r = Some (InputsComp pv ins cs)"
    by (auto simp add: InputsComp_reduce_def split: option.splits obj.splits)
  show ?thesis
  proof (cases "path a")
    case Nil
    show ?thesis
    proof (cases "atype a = CHANGE_VALUE \<and> (\<exists>v. avalue a = Some (JsonValue v))")
      case True
      then obtain v where v: "atype a = CHANGE_VALUE" "avalue a = Some (JsonValue v)" by blast
      obtain cm h1 where p: "InputsComp_parseChildrenFromValue (record_of v) h = (cm, h1)"
        by (cases "InputsComp_parseChildrenFromValue (record_of v) h")
      then have pre: "prefix h h1"
        by (auto simp add: InputsComp_parseChildrenFromValue_def dest: parseChildren_loop_prefix)
      from a d Nil v p have "setFieldsNoTypeCheck h1 r (\<lambda>this. InputsComp pv ins cm) = Inr (r', h')"
        by (simp add: InputsComp_reduce_def)
      then have "r' = length h1" "\<exists>x. h' = h1 @ [x]"
        by (auto simp add: setFields_eq)
      with pre show ?thesis
        by (auto simp add: grows_def prefix_def)
    next
      case False
      with a d Nil have "r' = r \<and> h' = h"
        by (auto simp add: InputsComp_reduce_def split: CompActionTypes.splits option.splits avalue.splits)
      then show ?thesis by (simp add: grows_def)
    qed
  next
    case (Cons k ks)
    from InputsComp_reduce_child [OF a d Cons] obtain c c' h1 where
      s: "SimpleComp_reduce h c (a\<lparr>path := ks\<rparr>) = Inr (c', h1)"
      and f: "r' = r \<and> h' = h
                \<or> setFieldsNoTypeCheck h1 r (\<lambda>this. InputsComp pv ins (AList.update k c' cs)) = Inr (r', h')"
      by blast
    from f show ?thesis
    proof
      assume "r' = r \<and> h' = h"
      then show ?thesis by (simp add: grows_def)
    next
      assume f': "setFieldsNoTypeCheck h1 r (\<lambda>this. InputsComp pv ins (AList.update k c' cs)) = Inr (r', h')"
      from SimpleComp_reduce_grows [OF s] have "prefix h h1" by (simp add: grows_def)
      moreover from f' have "r' = length h1" "\<exists>x. h' = h1 @ [x]"
        by (auto simp add: setFields_eq)
      ultimately show ?thesis
        by (auto simp add: grows_def prefix_def)
    qed
  qed
qed

lemma setInputs_grows:
  "setInputs h r ins = Inr (r', h') \<Longrightarrow> prefix h h' \<and> length h \<le> r' \<and> r' < length h'"
  by (auto simp add: setInputs_def parseChildrenFromValueAndChildrenMap_closed setFields_eq
      split: option.splits obj.splits sum.splits)


lemma new_InputsComp_prefix: "new_InputsComp v h = (r, h') \<Longrightarrow> prefix h h' \<and> length h \<le> r \<and> r < length h'"
proof -
  assume a: "new_InputsComp v h = (r, h')"
  obtain cm h1 where p: "InputsComp_parseChildrenFromValue v h = (cm, h1)"
    by (cases "InputsComp_parseChildrenFromValue v h")
  then have "prefix h h1"
    by (auto simp add: InputsComp_parseChildrenFromValue_def dest: parseChildren_loop_prefix)
  moreover from a p have "r = length h1" "h' = h1 @ [InputsComp v [] cm]"
    by (auto simp add: new_InputsComp_def alloc_def)
  ultimately show ?thesis
    by (auto simp add: prefix_def)
qed

lemma LibraryQueryBase_parseChildrenFromValue_prefix:
  "LibraryQueryBase_parseChildrenFromValue v h = (cs, h') \<Longrightarrow> prefix h h'"
proof -
  assume a: "LibraryQueryBase_parseChildrenFromValue v h = (cs, h')"
  obtain c3 h3 where i: "new_InputsComp (case v of None \<Rightarrow> None | Some d \<Rightarrow> inputs d)
     (h @ [SimpleComp (if (case v of None \<Rightarrow> JUndefined | Some d \<Rightarrow> libraryQueryId d) = JUndefined
                       then JStr [] else (case v of None \<Rightarrow> JUndefined | Some d \<Rightarrow> libraryQueryId d)),
           SimpleComp (if (case v of None \<Rightarrow> JUndefined | Some d \<Rightarrow> libraryQueryRecordId d) = JUndefined
                       then JStr ''latest'' else (case v of None \<Rightarrow> JUndefined | Some d \<Rightarrow> libraryQueryRecordId d))])
     = (c3, h3)"
    by (metis surj_pair)
  from new_InputsComp_prefix [OF i] have "prefix h h3"
    by (auto simp add: prefix_def)
  moreover from a i have "\<exists>x. h' = h3 @ [x]"
    by (auto simp add: LibraryQueryBase_parseChildrenFromValue_def new_leaf_def alloc_def)
  ultimately show ?thesis
    by (auto simp add: prefix_def)
qed

lemma child_reduce_grows:
  "child_reduce h c a = Inr (c', h') \<Longrightarrow> grows h c c' h'"
  by (auto simp add: child_reduce_def split: option.splits obj.splits
      dest: SimpleComp_reduce_grows InputsComp_reduce_grows)

lemma grows_after_copy:
  "prefix h h1 \<Longrightarrow> setFieldsNoTypeCheck h1 r p = Inr (r', h') \<Longrightarrow> grows h r r' h'"
  by (auto simp add: setFields_eq grows_def prefix_def)

lemma child_reduce_same:
  assumes "child_reduce h c a = Inr (c, h1)"
  shows "h1 = h"
proof -
  from assms obtain x where "deref h c = Some x"
    by (auto simp add: child_reduce_def split: option.splits)
  then have "c < length h" by (rule deref_Some_less)
  with child_reduce_grows [OF assms] show ?thesis by (simp add: grows_def)
qed

lemma LibraryQueryBase_reduce_child:
  assumes "LibraryQueryBase_reduce h r a = Inr (r', h')"
    and "deref h r = Some (LibraryQuery rd v cs)" and "path a = k # ks"
  shows "\<exists>c c' h1. child_of cs k = Some c \<and> child_reduce h c (a\<lparr>path := ks\<rparr>) = Inr (c', h1)
           \<and> (c' = c \<and> r' = r \<and> h' = h \<and> h1 = h
                \<or> c' \<noteq> c \<and> setFieldsNoTypeCheck h1 r (\<lambda>this. LibraryQuery rd v (set_child cs k c'))
                              = Inr (r', h'))"
proof -
  from assms obtain c where c: "child_of cs k = Some c"
    by (auto simp add: LibraryQueryBase_reduce_def split: option.splits)
  with assms obtain c' h1 where s: "child_reduce h c (a\<lparr>path := ks\<rparr>) = Inr (c', h1)"
    by (auto simp add: LibraryQueryBase_reduce_def split: sum.splits)
  show ?thesis
  proof (cases "c' = c")
    case True
    with s have "h1 = h" by (simp add: child_reduce_same)
    with assms c s True show ?thesis by (simp add: LibraryQueryBase_reduce_def)
  next
    case False
    with assms c s show ?thesis by (simp add: LibraryQueryBase_reduce_def)
  qed
qed

lemma LibraryQueryBase_reduce_grows:
  "LibraryQueryBase_reduce h r a = Inr (r', h') \<Longrightarrow> grows h r r' h'"
proof -
  assume a: "LibraryQueryBase_reduce h r a = Inr (r', h')"
  then obtain rd v cs where d: "deref h r = Some (LibraryQuery rd v cs)"
    by (auto simp add: LibraryQueryBase_reduce_def split: option.splits obj.splits)
  show ?thesis
  proof (cases "path a")
    case Nil
    show ?thesis
    proof (cases "atype a = CHANGE_VALUE \<and> (\<exists>x. avalue a = Some (JsonValue x))")
      case True
      then obtain x where x: "atype a = CHANGE_VALUE" "avalue a = Some (JsonValue x)" by blast
      obtain cs' h1 where p: "LibraryQueryBase_parseChildrenFromValue (DataType_of x) h = (cs', h1)"
        by (cases "LibraryQueryBase_parseChildrenFromValue (DataType_of x) h")
      from a d Nil x p have "setFieldsNoTypeCheck h1 r (\<lambda>this. LibraryQuery rd v cs') = Inr (r', h')"
        by (simp add: LibraryQueryBase_reduce_def)
      with LibraryQueryBase_parseChildrenFromValue_prefix [OF p] show ?thesis
        by (rule grows_after_copy)
    next
      case False
      with a d Nil have "r' = r \<and> h' = h"
        by (auto simp add: LibraryQueryBase_reduce_def split: CompActionTypes.splits option.splits avalue.splits)
      then show ?thesis by (simp add: grows_def)
    qed
  next
    case (Cons k ks)
    from LibraryQueryBase_reduce_child [OF a d Cons] obtain c c' h1 where
      s: "child_reduce h c (a\<lparr>path := ks\<rparr>) = Inr (c', h1)"
      and f: "r' = r \<and> h' = h
                \<or> setFieldsNoTypeCheck h1 r (\<lambda>this. LibraryQuery rd v (set_child cs k c')) = Inr (r', h')"
      by blast
    from f show ?thesis
    proof
      assume "r' = r \<and> h' = h"
      then show ?thesis by (simp add: grows_def)
    next
      assume f': "setFieldsNoTypeCheck h1 r (\<lambda>this. LibraryQuery rd v (set_child cs k c')) = Inr (r', h')"
      from child_reduce_grows [OF s] have "prefix h h1" by (simp add: grows_def)
      then show ?thesis using f' by (rule grows_after_copy)
    qed
  qed
qed

lemma LibraryQuery_reduce_grows:
  "LibraryQuery_reduce h r a = Inr (r', h') \<Longrightarrow> grows h r r' h'"
proof (cases "isMyCustomAction_queryLibraryUpdate a")
  case False
  assume "LibraryQuery_reduce h r a = Inr (r', h')"
  with False show ?thesis
    by (auto simp add: LibraryQuery_reduce_def dest: LibraryQueryBase_reduce_grows)
next
  case True
  assume a: "LibraryQuery_reduce h r a = Inr (r', h')"
  with True obtain rd v cs where d: "deref h r = Some (LibraryQuery rd v cs)"
    by (auto simp add: LibraryQuery_reduce_def split: option.splits obj.splits)
  with a True obtain i h1 where s: "setInputs h (inputs_comp cs) (action_dsl_inputs a) = Inr (i, h1)"
    and f: "setFieldsNoTypeCheck h1 r (\<lambda>this. LibraryQuery True v (cs\<lparr>inputs_comp := i\<rparr>)) = Inr (r', h')"
    by (auto simp add: LibraryQuery_reduce_def split: sum.splits)
  from setInputs_grows [OF s] have "prefix h h1" by simp
  then show ?thesis using f by (rule grows_after_copy)
qed


section \<open>Reduction is persistent and shares structure\<close>

lemma grows_deref: "grows h r r' h' \<Longrightarrow> deref h p = Some x \<Longrightarrow> deref h' p = Some x"
  by (auto simp add: grows_def dest: deref_prefix)

lemma Comp_reduce_grows: "Comp_reduce h n a = Inr (r, h') \<Longrightarrow> grows h n r h'"
  by (auto simp add: Comp_reduce_def split: option.splits obj.splits
      dest: SimpleComp_reduce_grows InputsComp_reduce_grows LibraryQuery_reduce_grows)

lemma unchanged_trans: "unchanged h h1 \<Longrightarrow> unchanged h1 h2 \<Longrightarrow> unchanged h h2"
  by (simp add: unchanged_def)

lemma prefix_unchanged: "prefix h h' \<Longrightarrow> unchanged h h'"
  by (auto simp add: unchanged_def dest: deref_prefix)

lemma grows_unchanged: "grows h r r' h' \<Longrightarrow> unchanged h h'"
  by (simp add: grows_def prefix_unchanged)

lemma setInputs_with_persistent:
  assumes sf: "persistent sf"
  shows "persistent (setInputs_with sf)"
  unfolding persistent_def
proof (intro allI impI)
  fix h n ins r h'
  assume a: "setInputs_with sf h n ins = Inr (r, h')"
  then obtain pv old cs json where d: "deref h n = Some (InputsComp pv old cs)"
    and j: "children_toJsonValue h cs = Inr json"
    by (auto simp add: setInputs_with_def split: option.splits obj.splits sum.splits)
  define h1 where "h1 = h @ map (\<lambda>k. SimpleComp
                     (case map_of (js_spread (case pv of None \<Rightarrow> [] | Some kvs \<Rightarrow> kvs) json) k of
                        Some x \<Rightarrow> if x = JUndefined then JSONValueControl_default else x
                      | None \<Rightarrow> JSONValueControl_default))
                (map fst (setInputs_childrenMap ins))"
  from a d j obtain p where "sf h1 n p = Inr (r, h')"
    by (simp add: setInputs_with_def parseChildrenFromValueAndChildrenMap_closed h1_def)
  with sf have "unchanged h1 h'" by (auto simp add: persistent_def)
  moreover have "unchanged h h1" by (rule prefix_unchanged) (simp add: h1_def)
  ultimately show "unchanged h h'" by (blast intro: unchanged_trans)
qed

lemma LibraryQuery_reduce_with_persistent:
  assumes sf: "persistent sf" and su: "persistent super"
  shows "persistent (LibraryQuery_reduce_with sf super)"
  unfolding persistent_def
proof (intro allI impI)
  fix h n a r h'
  assume a: "LibraryQuery_reduce_with sf super h n a = Inr (r, h')"
  show "unchanged h h'"
  proof (cases "isMyCustomAction_queryLibraryUpdate a")
    case False
    with a have "super h n a = Inr (r, h')" by (simp add: LibraryQuery_reduce_with_def)
    with su show ?thesis by (auto simp add: persistent_def)
  next
    case True
    with a obtain rd v cs where d: "deref h n = Some (LibraryQuery rd v cs)"
      by (auto simp add: LibraryQuery_reduce_with_def split: option.splits obj.splits)
    with a True obtain i h1 p where s: "setInputs_with sf h (inputs_comp cs) (action_dsl_inputs a) = Inr (i, h1)"
      and f: "sf h1 n p = Inr (r, h')"
      by (auto simp add: LibraryQuery_reduce_with_def split: sum.splits)
    from setInputs_with_persistent [OF sf] s have "unchanged h h1"
      by (auto simp add: persistent_def)
    moreover from sf f have "unchanged h1 h'" by (auto simp add: persistent_def)
    ultimately show ?thesis by (blast intro: unchanged_trans)
  qed
qed

lemma setInputs_with_copy: "setInputs_with setFieldsNoTypeCheck = setInputs"
  by (intro ext) (simp add: setInputs_with_def setInputs_def)

lemma LibraryQuery_reduce_with_copy:
  "LibraryQuery_reduce_with setFieldsNoTypeCheck LibraryQueryBase_reduce = LibraryQuery_reduce"
  by (intro ext) (unfold LibraryQuery_reduce_with_def LibraryQuery_reduce_def setInputs_with_copy, rule refl)

lemma setFieldsNoTypeCheck_persistent: "persistent setFieldsNoTypeCheck"
  by (auto simp add: persistent_def setFields_eq intro: prefix_unchanged)

lemma LibraryQueryBase_reduce_persistent: "persistent LibraryQueryBase_reduce"
  by (auto simp add: persistent_def dest: LibraryQueryBase_reduce_grows grows_unchanged)

lemma Comp_reduce_persistent: "persistent Comp_reduce"
  by (auto simp add: persistent_def dest: Comp_reduce_grows grows_unchanged)

lemma setInputs_persistent: "persistent setInputs"
  by (auto simp add: persistent_def dest: setInputs_grows intro: prefix_unchanged)

lemma Comp_reduce_result:
  assumes "Comp_reduce h n a = Inr (r, h')"
  shows "r = n \<and> h' = h \<or> deref h r = None \<and> deref h' r \<noteq> None"
  using Comp_reduce_grows [OF assms] by (auto simp add: grows_def deref_def)

lemma composite_noop:
  assumes "deref h n = Some x" and "path a = []" and "\<not> changes_value a"
    and "\<not> isMyCustomAction_queryLibraryUpdate a"
  shows "Comp_reduce h n a = Inr (n, h)"
proof (cases x)
  case (SimpleComp y)
  with assms show ?thesis
    by (auto simp add: Comp_reduce_def SimpleComp_reduce_def changes_value_def
        split: CompActionTypes.splits option.splits avalue.splits)
next
  case (InputsComp pv ins cs)
  with assms show ?thesis
    by (auto simp add: Comp_reduce_def InputsComp_reduce_def changes_value_def
        split: CompActionTypes.splits option.splits avalue.splits)
next
  case (LibraryQuery rd v cs)
  with assms show ?thesis
    by (auto simp add: Comp_reduce_def LibraryQuery_reduce_def LibraryQueryBase_reduce_def changes_value_def
        split: CompActionTypes.splits option.splits avalue.splits)
qed

lemma leaf_ignores:
  "deref h n = Some (SimpleComp y) \<Longrightarrow> \<not> changes_value a \<Longrightarrow> Comp_reduce h n a = Inr (n, h)"
  by (auto simp add: Comp_reduce_def SimpleComp_reduce_def changes_value_def
      split: CompActionTypes.splits list.splits option.splits avalue.splits)

lemma LibraryQuery_child_noop:
  assumes "deref h n = Some (LibraryQuery rd v cs)" and "path a = k # ks"
    and "child_of cs k = Some c" and "child_reduce h c (a\<lparr>path := ks\<rparr>) = Inr (c, h)"
  shows "Comp_reduce h n a = Inr (n, h)"
  using assms
  by (simp add: Comp_reduce_def LibraryQuery_reduce_def isMyCustomAction_queryLibraryUpdate_def
      LibraryQueryBase_reduce_def)

lemma InputsComp_child_noop:
  assumes "deref h n = Some (InputsComp pv ins ics)" and "path a = k # ks"
    and "map_of ics k = Some c" and "SimpleComp_reduce h c (a\<lparr>path := ks\<rparr>) = Inr (c, h)"
  shows "Comp_reduce h n a = Inr (n, h)"
  using assms
  by (simp add: Comp_reduce_def InputsComp_reduce_def)

lemma update_returns_new_node:
  assumes "isMyCustomAction_queryLibraryUpdate a" and "LibraryQuery_reduce h n a = Inr (r, h')"
  shows "r \<noteq> n \<and> deref h r = None"
proof -
  from assms obtain rd v cs where d: "deref h n = Some (LibraryQuery rd v cs)"
    by (auto simp add: LibraryQuery_reduce_def split: option.splits obj.splits)
  with assms obtain i h1 p where s: "setInputs h (inputs_comp cs) (action_dsl_inputs a) = Inr (i, h1)"
    and f: "setFieldsNoTypeCheck h1 n p = Inr (r, h')"
    by (auto simp add: LibraryQuery_reduce_def split: sum.splits)
  from setInputs_grows [OF s] have "length h \<le> length h1" by (auto simp add: prefix_def)
  moreover from f have "r = length h1" by (auto simp add: setFields_eq)
  moreover from d have "n < length h" by (rule deref_Some_less)
  ultimately show ?thesis by (simp add: deref_def)
qed

text \<open>
  C3, as amended. The bodies of \<open>InputsComp.setInputs\<close> and
  \<open>LibraryQuery.reduce\<close> change no object in place: whenever the helper
  \<open>setFieldsNoTypeCheck\<close> and the inherited reducer they call leave every object
  of the store as it was, so do they. The copying helper and the reducer of the
  base class do, and with them these two methods are \<open>setInputs\<close> and
  \<open>LibraryQuery_reduce\<close>; hence after \<open>r = n.reduce(a)\<close> on any node, and
  after \<open>setInputs\<close>, the receiver and every other object read as before.
  The node returned is the receiver itself, and then nothing was allocated or
  changed, or an object the call allocated. The receiver itself is returned by a
  leaf on every action but a change of its value, by any node on an action
  addressed to it that is neither a change of its value nor a library update, and
  by a composite whose addressed child returned itself. A library update never
  returns the receiver: it always returns a newly allocated node.
\<close>

theorem reduce_is_persistent:
  "(persistent sf \<and> persistent super
      \<longrightarrow> persistent (setInputs_with sf) \<and> persistent (LibraryQuery_reduce_with sf super))
   \<and> setInputs_with setFieldsNoTypeCheck = setInputs
   \<and> LibraryQuery_reduce_with setFieldsNoTypeCheck LibraryQueryBase_reduce = LibraryQuery_reduce
   \<and> persistent setFieldsNoTypeCheck \<and> persistent LibraryQueryBase_reduce
   \<and> persistent setInputs \<and> persistent Comp_reduce
   \<and> (Comp_reduce h n a = Inr (r, h')
        \<longrightarrow> r = n \<and> h' = h \<or> deref h r = None \<and> deref h' r \<noteq> None)
   \<and> (deref h n = Some (SimpleComp y) \<and> \<not> changes_value a \<longrightarrow> Comp_reduce h n a = Inr (n, h))
   \<and> (deref h n = Some x \<and> path a = [] \<and> \<not> changes_value a \<and> \<not> isMyCustomAction_queryLibraryUpdate a
        \<longrightarrow> Comp_reduce h n a = Inr (n, h))
   \<and> (deref h n = Some (LibraryQuery rd v cs) \<and> path a = k # ks \<and> child_of cs k = Some c
        \<and> child_reduce h c (a\<lparr>path := ks\<rparr>) = Inr (c, h)
        \<longrightarrow> Comp_reduce h n a = Inr (n, h))
   \<and> (deref h n = Some (InputsComp pv ins ics) \<and> path a = k # ks \<and> map_of ics k = Some c
        \<and> SimpleComp_reduce h c (a\<lparr>path := ks\<rparr>) = Inr (c, h)
        \<longrightarrow> Comp_reduce h n a = Inr (n, h))
   \<and> (isMyCustomAction_queryLibraryUpdate a \<and> LibraryQuery_reduce h n a = Inr (r, h')
        \<longrightarrow> r \<noteq> n \<and> deref h r = None)"
proof (intro conjI impI)
  assume p: "persistent sf \<and> persistent super"
  then show "persistent (setInputs_with sf)" by (simp add: setInputs_with_persistent)
  from p show "persistent (LibraryQuery_reduce_with sf super)"
    by (simp add: LibraryQuery_reduce_with_persistent)
next
  show "setInputs_with setFieldsNoTypeCheck = setInputs" by (rule setInputs_with_copy)
  show "LibraryQuery_reduce_with setFieldsNoTypeCheck LibraryQueryBase_reduce = LibraryQuery_reduce"
    by (rule LibraryQuery_reduce_with_copy)
  show "persistent setFieldsNoTypeCheck" by (rule setFieldsNoTypeCheck_persistent)
  show "persistent LibraryQueryBase_reduce" by (rule LibraryQueryBase_reduce_persistent)
  show "persistent setInputs" by (rule setInputs_persistent)
  show "persistent Comp_reduce" by (rule Comp_reduce_persistent)
next
  assume "Comp_reduce h n a = Inr (r, h')"
  then show "r = n \<and> h' = h \<or> deref h r = None \<and> deref h' r \<noteq> None"
    by (rule Comp_reduce_result)
next
  assume "deref h n = Some (SimpleComp y) \<and> \<not> changes_value a"
  then show "Comp_reduce h n a = Inr (n, h)" by (simp add: leaf_ignores)
next
  assume "deref h n = Some x \<and> path a = [] \<and> \<not> changes_value a \<and> \<not> isMyCustomAction_queryLibraryUpdate a"
  then show "Comp_reduce h n a = Inr (n, h)" by (simp add: composite_noop)
next
  assume "deref h n = Some (LibraryQuery rd v cs) \<and> path a = k # ks \<and> child_of cs k = Some c
        \<and> child_reduce h c (a\<lparr>path := ks\<rparr>) = Inr (c, h)"
  then show "Comp_reduce h n a = Inr (n, h)" by (simp add: LibraryQuery_child_noop)
next
  assume "deref h n = Some (InputsComp pv ins ics) \<and> path a = k # ks \<and> map_of ics k = Some c
        \<and> SimpleComp_reduce h c (a\<lparr>path := ks\<rparr>) = Inr (c, h)"
  then show "Comp_reduce h n a = Inr (n, h)" by (simp add: InputsComp_child_noop)
next
  assume u: "isMyCustomAction_queryLibraryUpdate a \<and> LibraryQuery_reduce h n a = Inr (r, h')"
  then have u1: "isMyCustomAction_queryLibraryUpdate a" and u2: "LibraryQuery_reduce h n a = Inr (r, h')"
    by simp_all
  from u1 u2 have "r \<noteq> n \<and> deref h r = None" by (rule update_returns_new_node)
  then show "r \<noteq> n" and "deref h r = None" by simp_all
qed


lemma example_reduce:
  "Comp_reduce example_heap 5 (changeChildAction ''libraryQueryId'' (JStr ''q2''))
     = Inr (7, example_heap @ [SimpleComp (JStr ''q2''),
          LibraryQuery False (Some example_V)
            \<lparr>libraryQueryId_comp = 6, libraryQueryRecordId_comp = 1, inputs_comp = 3, error_comp = 4\<rparr>])"
  by (simp add: Comp_reduce_def example_heap_def deref_def LibraryQuery_reduce_def
      isMyCustomAction_queryLibraryUpdate_def changeChildAction_def wrapChildAction_def
      changeValueAction_def LibraryQueryBase_reduce_def child_of_def child_reduce_def
      SimpleComp_reduce_def alloc_def setFieldsNoTypeCheck_def set_child_def)

theorem reduce_is_persistent_witness:
  "Comp_reduce example_heap 5 example_other = Inr (5, example_heap)
   \<and> Comp_reduce example_heap 5 (changeChildAction ''libraryQueryId'' (JStr ''q2''))
     = Inr (7, example_heap @ [SimpleComp (JStr ''q2''),
          LibraryQuery False (Some example_V)
            \<lparr>libraryQueryId_comp = 6, libraryQueryRecordId_comp = 1, inputs_comp = 3, error_comp = 4\<rparr>])
   \<and> deref (example_heap @ [SimpleComp (JStr ''q2''),
          LibraryQuery False (Some example_V)
            \<lparr>libraryQueryId_comp = 6, libraryQueryRecordId_comp = 1, inputs_comp = 3, error_comp = 4\<rparr>]) 5
       = Some (LibraryQuery False (Some example_V)
            \<lparr>libraryQueryId_comp = 0, libraryQueryRecordId_comp = 1, inputs_comp = 3, error_comp = 4\<rparr>)"
proof -
  define cs where "cs = \<lparr>libraryQueryId_comp = 0, libraryQueryRecordId_comp = 1, inputs_comp = 3, error_comp = 4\<rparr>"
  define h' where "h' = example_heap @ [SimpleComp (JStr ''q2''),
          LibraryQuery False (Some example_V)
            \<lparr>libraryQueryId_comp = 6, libraryQueryRecordId_comp = 1, inputs_comp = 3, error_comp = 4\<rparr>]"
  have d: "deref example_heap 5 = Some (LibraryQuery False (Some example_V) cs)"
    by (simp add: example_heap_def deref_def cs_def)
  have p: "path example_other = [''libraryQueryId'']"
    by (simp add: example_other_def)
  have c: "child_of cs ''libraryQueryId'' = Some 0"
    by (simp add: child_of_def cs_def)
  have s: "child_reduce example_heap 0 (example_other\<lparr>path := []\<rparr>) = Inr (0, example_heap)"
    by (simp add: child_reduce_def SimpleComp_reduce_def example_heap_def deref_def example_other_def)
  have e: "Comp_reduce example_heap 5 (changeChildAction ''libraryQueryId'' (JStr ''q2'')) = Inr (7, h')"
    unfolding h'_def by (rule example_reduce)
  note t = reduce_is_persistent [where h = example_heap and n = 5 and a = example_other
      and rd = False and v = "Some example_V" and cs = cs and k = "''libraryQueryId''" and ks = "[]" and c = 0]
  note t6 = t [THEN conjunct2, THEN conjunct2, THEN conjunct2, THEN conjunct2, THEN conjunct2,
      THEN conjunct2]
  note t10 = t6 [THEN conjunct2, THEN conjunct2, THEN conjunct2, THEN conjunct2]
  from t10 [THEN conjunct1] d p c s
  have noop: "Comp_reduce example_heap 5 example_other = Inr (5, example_heap)"
    by simp
  from t6 [THEN conjunct1] have "persistent Comp_reduce" .
  with e have "unchanged example_heap h'"
    by (simp add: persistent_def)
  with d have frame: "deref h' 5 = Some (LibraryQuery False (Some example_V) cs)"
    by (simp add: unchanged_def)
  from noop e frame show ?thesis
    unfolding h'_def cs_def by (intro conjI)
qed

text \<open>
  C3 as stated fails. The library query built from \<open>example_V\<close> is at 5, and
  at 8 of \<open>example_ready_heap\<close> once it has received the update carrying
  \<open>example_dsl\<close>; reducing the same update once more changes nothing (the node serializes to the same document before and
  after), yet the result is the new node 11, not the receiver 8: this no-op is not
  signalled by a pointer-equal result. And with the helper patching in place, as
  section 9 words it, the same reducer returns the receiver 5 itself after
  overwriting it: the node that serialized the input \<open>a\<close> now serializes the
  input \<open>b\<close>.
\<close>

theorem noop_not_signalled:
  "new_LibraryQuery (Some example_V) [] = (5, example_heap)
   \<and> LibraryQuery_reduce example_heap 5 (customAction (QueryLibraryUpdate (Some example_dsl)))
     = Inr (8, example_ready_heap)
   \<and> LibraryQuery_reduce example_ready_heap 8 (customAction (QueryLibraryUpdate (Some example_dsl)))
     = Inr (11, example_ready_heap @
         [SimpleComp (JStr ''1''),
          InputsComp (Some [(''a'', JStr ''1'')]) [\<lparr>name = ''a'', description = ''first''\<rparr>] [(''a'', 9)],
          LibraryQuery True (Some example_V)
            \<lparr>libraryQueryId_comp = 0, libraryQueryRecordId_comp = 1, inputs_comp = 10, error_comp = 4\<rparr>])
   \<and> (11 :: ref) \<noteq> 8
   \<and> LibraryQuery_toJsonValue example_ready_heap 8 = Inr example_V
   \<and> LibraryQuery_toJsonValue (example_ready_heap @
         [SimpleComp (JStr ''1''),
          InputsComp (Some [(''a'', JStr ''1'')]) [\<lparr>name = ''a'', description = ''first''\<rparr>] [(''a'', 9)],
          LibraryQuery True (Some example_V)
            \<lparr>libraryQueryId_comp = 0, libraryQueryRecordId_comp = 1, inputs_comp = 10, error_comp = 4\<rparr>]) 11
       = Inr example_V
   \<and> LibraryQuery_reduce_with patchInPlace LibraryQueryBase_reduce example_heap 5
        (customAction (QueryLibraryUpdate (Some \<lparr>dsl_inputs = Some [item_b]\<rparr>)))
       = Inr (5,
           [SimpleComp (JStr ''q1''), SimpleComp (JStr ''latest''), SimpleComp (JStr ''1''),
            InputsComp (Some [(''a'', JStr ''1'')]) [item_b] [(''b'', 6)],
            SimpleComp (JStr []),
            LibraryQuery True (Some example_V)
              \<lparr>libraryQueryId_comp = 0, libraryQueryRecordId_comp = 1, inputs_comp = 3, error_comp = 4\<rparr>,
            SimpleComp (JStr [])])
   \<and> LibraryQuery_toJsonValue example_heap 5 = Inr example_V
   \<and> LibraryQuery_toJsonValue
           [SimpleComp (JStr ''q1''), SimpleComp (JStr ''latest''), SimpleComp (JStr ''1''),
            InputsComp (Some [(''a'', JStr ''1'')]) [item_b] [(''b'', 6)],
            SimpleComp (JStr []),
            LibraryQuery True (Some example_V)
              \<lparr>libraryQueryId_comp = 0, libraryQueryRecordId_comp = 1, inputs_comp = 3, error_comp = 4\<rparr>,
            SimpleComp (JStr [])] 5
       = Inr (example_V\<lparr>inputs := Some [(''b'', JStr [])]\<rparr>)"
  by (simp add: example_heap_def example_ready_heap_def example_dsl_def
      example_V_def customAction_def LibraryQuery_reduce_def isMyCustomAction_queryLibraryUpdate_def
      action_dsl_inputs_def deref_def setInputs_def SimpleComp_getView_def js_spread_def
      setInputs_childrenMap_def js_assign_def new_JSONValueControl_def new_leaf_def alloc_def
      setFieldsNoTypeCheck_def LibraryQuery_toJsonValue_def LibraryQueryBase_toJsonValue_def
      InputsComp_toJsonValue_def nth_append item_b_def JSONValueControl_default_def
      LibraryQuery_reduce_with_def setInputs_with_def patchInPlace_def
      new_LibraryQuery_def LibraryQueryBase_parseChildrenFromValue_def new_InputsComp_def
      InputsComp_parseChildrenFromValue_def)

lemma child_of_set_child: "k' \<noteq> k \<Longrightarrow> child_of (set_child cs k c) k' = child_of cs k'"
  by (auto simp add: child_of_def set_child_def)

lemma child_of_inputs_update: "k' \<noteq> ''inputs'' \<Longrightarrow> child_of (cs\<lparr>inputs_comp := c\<rparr>) k' = child_of cs k'"
  by (simp add: child_of_def)

lemma LibraryQuery_reduce_shares:
  assumes a: "LibraryQuery_reduce h n a = Inr (r, h')"
    and d: "deref h n = Some (LibraryQuery rd v cs)"
    and k: "path a = k # ks \<or> isMyCustomAction_queryLibraryUpdate a \<and> k = ''inputs''"
  shows "\<exists>rd' cs'. deref h' r = Some (LibraryQuery rd' v cs')
           \<and> (\<forall>k'. k' \<noteq> k \<longrightarrow> child_of cs' k' = child_of cs k')"
proof (cases "isMyCustomAction_queryLibraryUpdate a")
  case True
  then have "path a = []" by (simp add: isMyCustomAction_queryLibraryUpdate_def)
  with k have kk: "k = ''inputs''" by simp
  from a d True obtain i h1 where
    f: "setFieldsNoTypeCheck h1 n (\<lambda>this. LibraryQuery True v (cs\<lparr>inputs_comp := i\<rparr>)) = Inr (r, h')"
    by (auto simp add: LibraryQuery_reduce_def split: sum.splits)
  then have "deref h' r = Some (LibraryQuery True v (cs\<lparr>inputs_comp := i\<rparr>))"
    by (auto simp add: setFields_eq deref_append_new)
  with kk show ?thesis by (auto simp add: child_of_inputs_update)
next
  case False
  with k have p: "path a = k # ks" by simp
  from a False have b: "LibraryQueryBase_reduce h n a = Inr (r, h')"
    by (simp add: LibraryQuery_reduce_def)
  from LibraryQueryBase_reduce_child [OF b d p] obtain c' h1 where
    f: "r = n \<and> h' = h
          \<or> setFieldsNoTypeCheck h1 n (\<lambda>this. LibraryQuery rd v (set_child cs k c')) = Inr (r, h')"
    by blast
  from f show ?thesis
  proof
    assume "r = n \<and> h' = h"
    with d show ?thesis by auto
  next
    assume "setFieldsNoTypeCheck h1 n (\<lambda>this. LibraryQuery rd v (set_child cs k c')) = Inr (r, h')"
    then have "deref h' r = Some (LibraryQuery rd v (set_child cs k c'))"
      by (auto simp add: setFields_eq deref_append_new)
    then show ?thesis by (auto simp add: child_of_set_child)
  qed
qed

lemma InputsComp_reduce_shares:
  assumes a: "InputsComp_reduce h n a = Inr (r, h')"
    and d: "deref h n = Some (InputsComp pv ins ics)"
    and p: "path a = k # ks"
  shows "\<exists>ics'. deref h' r = Some (InputsComp pv ins ics')
           \<and> (\<forall>k'. k' \<noteq> k \<longrightarrow> map_of ics' k' = map_of ics k')"
proof -
  from InputsComp_reduce_child [OF a d p] obtain c' h1 where
    f: "r = n \<and> h' = h
          \<or> setFieldsNoTypeCheck h1 n (\<lambda>this. InputsComp pv ins (AList.update k c' ics)) = Inr (r, h')"
    by blast
  from f show ?thesis
  proof
    assume "r = n \<and> h' = h"
    with d show ?thesis by auto
  next
    assume "setFieldsNoTypeCheck h1 n (\<lambda>this. InputsComp pv ins (AList.update k c' ics)) = Inr (r, h')"
    then have "deref h' r = Some (InputsComp pv ins (AList.update k c' ics))"
      by (auto simp add: setFields_eq deref_append_new)
    then show ?thesis by (auto simp add: update_conv')
  qed
qed

text \<open>
  C5. When a library query reduces an action addressed to its child \<open>k\<close>
  (or a library update, which replaces the child \<open>inputs\<close>), the node returned
  holds, under every other key, the very reference the original held, and the
  objects behind those references are unchanged. The same holds for the children
  of an \<open>InputsComp\<close>.
\<close>

theorem reduce_shares_siblings:
  "(LibraryQuery_reduce h n a = Inr (r, h') \<and> deref h n = Some (LibraryQuery rd v cs)
      \<and> (path a = k # ks \<or> isMyCustomAction_queryLibraryUpdate a \<and> k = ''inputs'')
     \<longrightarrow> (\<exists>rd' cs'. deref h' r = Some (LibraryQuery rd' v cs')
              \<and> (\<forall>k'. k' \<noteq> k \<longrightarrow> child_of cs' k' = child_of cs k'))
          \<and> (\<forall>p x. deref h p = Some x \<longrightarrow> deref h' p = Some x))
   \<and> (InputsComp_reduce h n a = Inr (r, h') \<and> deref h n = Some (InputsComp pv ins ics)
      \<and> path a = k # ks
     \<longrightarrow> (\<exists>ics'. deref h' r = Some (InputsComp pv ins ics')
              \<and> (\<forall>k'. k' \<noteq> k \<longrightarrow> map_of ics' k' = map_of ics k'))
          \<and> (\<forall>p x. deref h p = Some x \<longrightarrow> deref h' p = Some x))"
proof (intro conjI impI)
  assume h: "LibraryQuery_reduce h n a = Inr (r, h') \<and> deref h n = Some (LibraryQuery rd v cs)
      \<and> (path a = k # ks \<or> isMyCustomAction_queryLibraryUpdate a \<and> k = ''inputs'')"
  then show "\<exists>rd' cs'. deref h' r = Some (LibraryQuery rd' v cs')
              \<and> (\<forall>k'. k' \<noteq> k \<longrightarrow> child_of cs' k' = child_of cs k')"
    by (blast intro: LibraryQuery_reduce_shares)
  from h have "grows h n r h'" by (blast intro: LibraryQuery_reduce_grows)
  then show "\<forall>p x. deref h p = Some x \<longrightarrow> deref h' p = Some x"
    by (blast intro: grows_deref)
next
  assume h: "InputsComp_reduce h n a = Inr (r, h') \<and> deref h n = Some (InputsComp pv ins ics)
      \<and> path a = k # ks"
  then show "\<exists>ics'. deref h' r = Some (InputsComp pv ins ics')
              \<and> (\<forall>k'. k' \<noteq> k \<longrightarrow> map_of ics' k' = map_of ics k')"
    by (blast intro: InputsComp_reduce_shares)
  from h have "grows h n r h'" by (blast intro: InputsComp_reduce_grows)
  then show "\<forall>p x. deref h p = Some x \<longrightarrow> deref h' p = Some x"
    by (blast intro: grows_deref)
qed


lemma example_LibraryQuery_reduce:
  "LibraryQuery_reduce example_heap 5 (changeChildAction ''libraryQueryId'' (JStr ''q2''))
     = Inr (7, example_heap @ [SimpleComp (JStr ''q2''),
          LibraryQuery False (Some example_V)
            \<lparr>libraryQueryId_comp = 6, libraryQueryRecordId_comp = 1, inputs_comp = 3, error_comp = 4\<rparr>])"
  by (simp add: example_heap_def deref_def LibraryQuery_reduce_def
      isMyCustomAction_queryLibraryUpdate_def changeChildAction_def wrapChildAction_def
      changeValueAction_def LibraryQueryBase_reduce_def child_of_def child_reduce_def
      SimpleComp_reduce_def alloc_def setFieldsNoTypeCheck_def set_child_def)

theorem reduce_shares_siblings_witness:
  "LibraryQuery_reduce example_heap 5 (changeChildAction ''libraryQueryId'' (JStr ''q2''))
     = Inr (7, example_heap @ [SimpleComp (JStr ''q2''),
          LibraryQuery False (Some example_V)
            \<lparr>libraryQueryId_comp = 6, libraryQueryRecordId_comp = 1, inputs_comp = 3, error_comp = 4\<rparr>])
   \<and> path (changeChildAction ''libraryQueryId'' (JStr ''q2'')) = [''libraryQueryId'']
   \<and> deref example_heap 5 = Some (LibraryQuery False (Some example_V)
            \<lparr>libraryQueryId_comp = 0, libraryQueryRecordId_comp = 1, inputs_comp = 3, error_comp = 4\<rparr>)
   \<and> (\<exists>rd' cs'. deref (example_heap @ [SimpleComp (JStr ''q2''),
          LibraryQuery False (Some example_V)
            \<lparr>libraryQueryId_comp = 6, libraryQueryRecordId_comp = 1, inputs_comp = 3, error_comp = 4\<rparr>]) 7
          = Some (LibraryQuery rd' (Some example_V) cs')
        \<and> child_of cs' ''libraryQueryRecordId'' = Some 1
        \<and> child_of cs' ''inputs'' = Some 3
        \<and> child_of cs' ''error'' = Some 4)"
proof -
  define a where "a = changeChildAction ''libraryQueryId'' (JStr ''q2'')"
  define cs where "cs = \<lparr>libraryQueryId_comp = 0, libraryQueryRecordId_comp = 1, inputs_comp = 3, error_comp = 4\<rparr>"
  define h' where "h' = example_heap @ [SimpleComp (JStr ''q2''),
          LibraryQuery False (Some example_V)
            \<lparr>libraryQueryId_comp = 6, libraryQueryRecordId_comp = 1, inputs_comp = 3, error_comp = 4\<rparr>]"
  have d: "deref example_heap 5 = Some (LibraryQuery False (Some example_V) cs)"
    by (simp add: example_heap_def deref_def cs_def)
  have p: "path a = [''libraryQueryId'']"
    by (simp add: a_def changeChildAction_def wrapChildAction_def changeValueAction_def)
  have e: "LibraryQuery_reduce example_heap 5 a = Inr (7, h')"
    unfolding a_def h'_def by (rule example_LibraryQuery_reduce)
  have "\<exists>rd' cs'. deref h' 7 = Some (LibraryQuery rd' (Some example_V) cs')
          \<and> (\<forall>k'. k' \<noteq> ''libraryQueryId'' \<longrightarrow> child_of cs' k' = child_of cs k')"
    using reduce_shares_siblings [of example_heap 5 a 7 h' False "Some example_V" cs
        "''libraryQueryId''" "[]"] e d p
    by simp
  then obtain rd' cs' where c: "deref h' 7 = Some (LibraryQuery rd' (Some example_V) cs')"
    and s: "\<forall>k'. k' \<noteq> ''libraryQueryId'' \<longrightarrow> child_of cs' k' = child_of cs k'"
    by blast
  have c1: "child_of cs' ''libraryQueryRecordId'' = Some 1"
    using s [rule_format, of "''libraryQueryRecordId''"] by (simp add: child_of_def cs_def)
  have c2: "child_of cs' ''inputs'' = Some 3"
    using s [rule_format, of "''inputs''"] by (simp add: child_of_def cs_def)
  have c3: "child_of cs' ''error'' = Some 4"
    using s [rule_format, of "''error''"] by (simp add: child_of_def cs_def)
  from c c1 c2 c3 have "\<exists>rd' cs'. deref h' 7 = Some (LibraryQuery rd' (Some example_V) cs')
        \<and> child_of cs' ''libraryQueryRecordId'' = Some 1
        \<and> child_of cs' ''inputs'' = Some 3
        \<and> child_of cs' ''error'' = Some 4"
    by blast
  with e d p show ?thesis
    unfolding a_def h'_def cs_def by simp
qed


section \<open>The property view of the inputs\<close>




lemma deref_append_new2: "r = length h + length ys \<Longrightarrow> deref (h @ ys @ [x]) r = Some x"
  by (simp add: deref_def nth_append)

lemma setInputs_eq:
  assumes "deref h n = Some (InputsComp pv old cs)" and "children_toJsonValue h cs = Inr json"
  shows "setInputs h n ins =
     Inr (length h + length (setInputs_childrenMap ins),
          h @ map (\<lambda>k. SimpleComp
                     (case map_of (js_spread (case pv of None \<Rightarrow> [] | Some kvs \<Rightarrow> kvs) json) k of
                        Some x \<Rightarrow> if x = JUndefined then JSONValueControl_default else x
                      | None \<Rightarrow> JSONValueControl_default))
                (map fst (setInputs_childrenMap ins))
            @ [InputsComp pv ins
                 (zip (map fst (setInputs_childrenMap ins))
                      [length h ..< length h + length (setInputs_childrenMap ins)])])"
proof -
  from assms(1) have "n < length h" by (rule deref_Some_less)
  then have "deref (h @ map (\<lambda>k. SimpleComp
                     (case map_of (js_spread (case pv of None \<Rightarrow> [] | Some kvs \<Rightarrow> kvs) json) k of
                        Some x \<Rightarrow> if x = JUndefined then JSONValueControl_default else x
                      | None \<Rightarrow> JSONValueControl_default))
                (map fst (setInputs_childrenMap ins))) n = Some (InputsComp pv old cs)"
    using assms(1) by (simp add: deref_append_old)
  with assms show ?thesis
    by (simp add: setInputs_def parseChildrenFromValueAndChildrenMap_closed
        setFieldsNoTypeCheck_def alloc_def)
qed

lemma setInputs_result:
  assumes "setInputs h n ins = Inr (r, h')"
  shows "\<exists>pv old cs. deref h n = Some (InputsComp pv old cs)
       \<and> deref h' r = Some (InputsComp pv ins
            (zip (map fst (setInputs_childrenMap ins))
                 [length h ..< length h + length (setInputs_childrenMap ins)]))"
proof -
  from assms obtain pv old cs json where d: "deref h n = Some (InputsComp pv old cs)"
    and j: "children_toJsonValue h cs = Inr json"
    by (auto simp add: setInputs_def split: option.splits obj.splits sum.splits)
  from setInputs_eq [OF d j, of ins] assms d show ?thesis
    by (auto simp add: deref_append_new2)
qed

lemma getPropertyView_no_inputs:
  "deref h r = Some (InputsComp pv [] cs) \<Longrightarrow> InputsComp_getPropertyView h r = Inr NoInputs"
  by (simp add: InputsComp_getPropertyView_def)

lemma new_InputsComp_result:
  "new_InputsComp v h = (r, h') \<Longrightarrow> \<exists>cs. deref h' r = Some (InputsComp v [] cs)"
  by (auto simp add: new_InputsComp_def alloc_def deref_append_new split: prod.splits)

lemma render_inputs_empty:
  "\<forall>i \<in> set ins. name i \<notin> set Object_prototype_names \<Longrightarrow>
     render_inputs [] ins = Inr (map (\<lambda>i. NullEntry) ins)"
  by (induction ins) (simp_all add: js_get_def)

lemma getPropertyView_placeholder_iff:
  "deref h r = Some (InputsComp pv ins cs) \<Longrightarrow>
     (InputsComp_getPropertyView h r = Inr NoInputs \<longleftrightarrow> ins = [])"
  by (auto simp add: InputsComp_getPropertyView_def split: sum.splits)

text \<open>
  C8, as amended. An \<open>InputsComp\<close> renders the "no input" placeholder exactly
  when its list of declared inputs, the key specs given to the last
  \<open>setInputs\<close>, is empty: in any state, right after construction, and after
  \<open>setInputs\<close> exactly when the inputs given are none. The children map does
  not enter the test: a node whose children map is empty while inputs are declared
  (under names that \<open>Object.prototype\<close> does not define) renders one
  \<open>null\<close> per declared input, and not the placeholder.
\<close>

theorem placeholder_iff_no_declared_inputs:
  "(deref h r = Some (InputsComp pv ins cs)
      \<longrightarrow> (InputsComp_getPropertyView h r = Inr NoInputs \<longleftrightarrow> ins = []))
   \<and> (deref h r = Some (InputsComp pv ins []) \<and> ins \<noteq> []
        \<and> (\<forall>i \<in> set ins. name i \<notin> set Object_prototype_names)
      \<longrightarrow> InputsComp_getPropertyView h r = Inr (Entries (map (\<lambda>i. NullEntry) ins)))
   \<and> (new_InputsComp v h = (r, h') \<longrightarrow> InputsComp_getPropertyView h' r = Inr NoInputs)
   \<and> (setInputs h n ins = Inr (r, h')
      \<longrightarrow> (InputsComp_getPropertyView h' r = Inr NoInputs \<longleftrightarrow> ins = []))"
proof (intro conjI impI)
  assume "deref h r = Some (InputsComp pv ins cs)"
  then show "InputsComp_getPropertyView h r = Inr NoInputs \<longleftrightarrow> ins = []"
    by (rule getPropertyView_placeholder_iff)
next
  assume a: "deref h r = Some (InputsComp pv ins []) \<and> ins \<noteq> []
        \<and> (\<forall>i \<in> set ins. name i \<notin> set Object_prototype_names)"
  then have "render_inputs [] ins = Inr (map (\<lambda>i. NullEntry) ins)"
    by (simp add: render_inputs_empty)
  with a show "InputsComp_getPropertyView h r = Inr (Entries (map (\<lambda>i. NullEntry) ins))"
    by (simp add: InputsComp_getPropertyView_def)
next
  assume "new_InputsComp v h = (r, h')"
  from new_InputsComp_result [OF this] show "InputsComp_getPropertyView h' r = Inr NoInputs"
    by (auto intro: getPropertyView_no_inputs)
next
  assume "setInputs h n ins = Inr (r, h')"
  from setInputs_result [OF this] obtain pv' cs' where "deref h' r = Some (InputsComp pv' ins cs')"
    by blast
  then show "InputsComp_getPropertyView h' r = Inr NoInputs \<longleftrightarrow> ins = []"
    by (rule getPropertyView_placeholder_iff)
qed

theorem placeholder_iff_no_declared_inputs_witness:
  "deref example_emptied_heap 3 = Some (InputsComp None [item_a] [])
   \<and> InputsComp_getPropertyView example_emptied_heap 3 = Inr (Entries [NullEntry])
   \<and> InputsComp_getPropertyView example_emptied_heap 3 \<noteq> Inr NoInputs
   \<and> InputsComp_getPropertyView example_emptied_heap 0 = Inr NoInputs"
proof -
  have d3: "deref example_emptied_heap 3 = Some (InputsComp None [item_a] [])"
    by (simp add: example_emptied_heap_def deref_def)
  have d0: "deref example_emptied_heap 0 = Some (InputsComp None [] [])"
    by (simp add: example_emptied_heap_def deref_def)
  have n: "\<forall>i \<in> set [item_a]. name i \<notin> set Object_prototype_names"
    by (simp add: item_a_def Object_prototype_names_def)
  note t3 = placeholder_iff_no_declared_inputs [of example_emptied_heap 3 None "[item_a]" "[]"]
  note t0 = placeholder_iff_no_declared_inputs [of example_emptied_heap 0 None "[]" "[]"]
  from t3 d3 n have a: "InputsComp_getPropertyView example_emptied_heap 3 = Inr (Entries [NullEntry])"
    by simp
  from t3 d3 have b: "InputsComp_getPropertyView example_emptied_heap 3 \<noteq> Inr NoInputs"
    by simp
  from t0 d0 have c: "InputsComp_getPropertyView example_emptied_heap 0 = Inr NoInputs"
    by simp
  from d3 a b c show ?thesis by (intro conjI)
qed

text \<open>
  C8 as stated fails on a node whose key set is empty: the \<open>InputsComp\<close> at 3
  of \<open>example_emptied_heap\<close>, reached by construction, \<open>setInputs\<close> with the
  input \<open>a\<close> and a change of the whole value to the empty object, has no child
  and renders the list \<open>[null]\<close>, which shows nothing, instead of the
  placeholder.
\<close>

theorem empty_children_not_placeholder:
  "new_InputsComp None [] = (0, take 1 example_emptied_heap)
   \<and> setInputs (take 1 example_emptied_heap) 0 [item_a] = Inr (2, take 3 example_emptied_heap)
   \<and> InputsComp_reduce (take 3 example_emptied_heap) 2 (changeValueAction (JObj []))
       = Inr (3, example_emptied_heap)
   \<and> deref example_emptied_heap 3 = Some (InputsComp None [item_a] [])
   \<and> InputsComp_getPropertyView example_emptied_heap 3 = Inr (Entries [NullEntry])"
  by (simp add: example_emptied_heap_def item_a_def new_InputsComp_def
      InputsComp_parseChildrenFromValue_def alloc_def setInputs_def deref_def js_spread_def
      setInputs_childrenMap_def js_assign_def new_JSONValueControl_def new_leaf_def
      JSONValueControl_default_def setFieldsNoTypeCheck_def InputsComp_reduce_def
      changeValueAction_def record_of_def InputsComp_getPropertyView_def js_get_def
      Object_prototype_names_def)

lemma render_inputs_total:
  "\<forall>i \<in> set ins. js_get cs (name i) \<noteq> Inherited \<Longrightarrow>
     render_inputs cs ins =
       Inr (map (\<lambda>i. case map_of cs (name i) of
                        Some c \<Rightarrow> Editor (name i) (description i) c
                      | None \<Rightarrow> NullEntry) ins)"
  by (induction ins) (auto simp add: js_get_def split: option.splits if_splits)


text \<open>
  C10, at the input where the code and the claim part. The guard
  \<open>if (!child) return null\<close> tests \<open>this.children[name]\<close>, and for a name
  such as \<open>toString\<close> that is no key of the children map the lookup finds the
  member inherited from \<open>Object.prototype\<close>: it is truthy, the guard lets it
  pass, and the call of its missing \<open>propertyView\<close> throws. A state of the
  same kind is reached from a new node by \<open>setInputs\<close> with an input named
  \<open>__proto__\<close>: the assignment in its loop adds no key to the children map.
  (For names that the lookup does not find at all the entry is \<open>null\<close> and
  nothing is thrown: \<open>render_inputs_total\<close>.)
\<close>

theorem getPropertyView_inherited_name_throws:
  "InputsComp_getPropertyView
     [InputsComp None [\<lparr>name = ''toString'', description = []\<rparr>] []] 0 = Inl TypeError
   \<and> new_InputsComp None [] = (0, [InputsComp None [] []])
   \<and> setInputs [InputsComp None [] []] 0 [\<lparr>name = ''__proto__'', description = []\<rparr>]
       = Inr (1, [InputsComp None [] [], InputsComp None [\<lparr>name = ''__proto__'', description = []\<rparr>] []])
   \<and> InputsComp_getPropertyView
       [InputsComp None [] [], InputsComp None [\<lparr>name = ''__proto__'', description = []\<rparr>] []] 1
       = Inl TypeError"
  by (simp add: InputsComp_getPropertyView_def deref_def js_get_def Object_prototype_names_def
      new_InputsComp_def InputsComp_parseChildrenFromValue_def alloc_def setInputs_def
      setInputs_childrenMap_def js_assign_def js_spread_def setFieldsNoTypeCheck_def)


section \<open>Failure of the fetch\<close>

















section \<open>Recomputing the inputs\<close>

lemma js_spread_two:
  "a \<noteq> b \<Longrightarrow> a \<noteq> c \<Longrightarrow> b \<noteq> c \<Longrightarrow>
     map_of (js_spread m [(a, x), (b, y)]) a = Some x
     \<and> map_of (js_spread m [(a, x), (b, y)]) c = map_of m c"
  by (simp add: js_spread_def update_conv')

lemma setInputs_childrenMap_two:
  "name ia = a \<Longrightarrow> name ic = c \<Longrightarrow> a \<noteq> c \<Longrightarrow> a \<noteq> ''__proto__'' \<Longrightarrow> c \<noteq> ''__proto__'' \<Longrightarrow>
     setInputs_childrenMap [ia, ic] = [(a, ()), (c, ())]"
  by (simp add: setInputs_childrenMap_def js_assign_def)

text \<open>
  C2, as amended. Let an \<open>InputsComp\<close> have the children \<open>a\<close> and \<open>b\<close>,
  child \<open>a\<close> holding the value \<open>va\<close>. Then \<open>setInputs\<close> with the inputs
  \<open>a\<close> and \<open>c\<close> (\<open>a\<close> not named \<open>__proto__\<close>, \<open>c\<close> no name that
  \<open>Object.prototype\<close> defines) returns a node whose children are exactly
  \<open>a\<close> and \<open>c\<close>. Child \<open>a\<close> is a new object built from
  the serialized value of the old one: it holds \<open>va\<close>, and it is not the old
  object, which stays in the store unchanged. Child \<open>b\<close> is gone. Child \<open>c\<close>
  is built from the entry for \<open>c\<close> of the value the node was constructed with,
  and from the default only when that value has no such entry.
\<close>

theorem setInputs_rebuilds_children:
  assumes d: "deref h n = Some (InputsComp pv old [(a, ra), (b, rb)])"
    and va: "deref h ra = Some (SimpleComp va)" and vu: "va \<noteq> JUndefined"
    and vb: "deref h rb = Some (SimpleComp vb)"
    and ab: "a \<noteq> b" and ac: "a \<noteq> c" and bc: "b \<noteq> c"
    and pa: "a \<noteq> ''__proto__''" and pn: "c \<notin> set Object_prototype_names"
    and na: "name ia = a" and nc: "name ic = c"
  shows "\<exists>r h' ra' rc'.
      setInputs h n [ia, ic] = Inr (r, h')
      \<and> deref h' r = Some (InputsComp pv [ia, ic] [(a, ra'), (c, rc')])
      \<and> deref h' ra' = Some (SimpleComp va)
      \<and> ra' \<noteq> ra \<and> deref h ra' = None
      \<and> deref h' rc' =
          Some (SimpleComp
            (case (case pv of None \<Rightarrow> None | Some kvs \<Rightarrow> map_of kvs c) of
               Some x \<Rightarrow> if x = JUndefined then JSONValueControl_default else x
             | None \<Rightarrow> JSONValueControl_default))
      \<and> (\<forall>p x. deref h p = Some x \<longrightarrow> deref h' p = Some x)"
proof -
  define pvl where "pvl = (case pv of None \<Rightarrow> [] | Some kvs \<Rightarrow> kvs)"
  define vc where "vc = (case map_of pvl c of
               Some x \<Rightarrow> if x = JUndefined then JSONValueControl_default else x
             | None \<Rightarrow> JSONValueControl_default)"
  define h' where "h' = h @ [SimpleComp va, SimpleComp vc,
       InputsComp pv [ia, ic] [(a, length h), (c, Suc (length h))]]"
  have j: "children_toJsonValue h [(a, ra), (b, rb)] = Inr [(a, va), (b, vb)]"
    using va vb by (simp add: SimpleComp_getView_def)
  from pn have pc: "c \<noteq> ''__proto__''"
    by (simp add: Object_prototype_names_def)
  have cm: "setInputs_childrenMap [ia, ic] = [(a, ()), (c, ())]"
    using na nc ac pa pc by (rule setInputs_childrenMap_two)
  have up: "[length h ..< Suc (Suc (length h))] = [length h, Suc (length h)]"
    by (simp add: upt_rec)
  have s: "setInputs h n [ia, ic] = Inr (Suc (Suc (length h)), h')"
    using setInputs_eq [OF d j, of "[ia, ic]"] js_spread_two [OF ab ac bc, of pvl va vb] vu
    by (simp add: cm up h'_def vc_def pvl_def)
  have d1: "deref h' (Suc (Suc (length h))) = Some (InputsComp pv [ia, ic] [(a, length h), (c, Suc (length h))])"
    by (simp add: h'_def deref_def nth_append)
  have d2: "deref h' (length h) = Some (SimpleComp va)"
    by (simp add: h'_def deref_def nth_append)
  have d3: "deref h' (Suc (length h)) = Some (SimpleComp vc)"
    by (simp add: h'_def deref_def nth_append)
  from va have "ra < length h" by (rule deref_Some_less)
  then have f1: "length h \<noteq> ra" by simp
  have f2: "deref h (length h) = None" by (simp add: deref_def)
  have old: "\<forall>p x. deref h p = Some x \<longrightarrow> deref h' p = Some x"
    by (simp add: h'_def deref_append_old deref_def nth_append)
  have vc': "vc = (case (case pv of None \<Rightarrow> None | Some kvs \<Rightarrow> map_of kvs c) of
               Some x \<Rightarrow> if x = JUndefined then JSONValueControl_default else x
             | None \<Rightarrow> JSONValueControl_default)"
    by (simp add: vc_def pvl_def split: option.splits)
  show ?thesis
    apply (rule exI [of _ "Suc (Suc (length h))"], rule exI [of _ h'])
    apply (rule exI [of _ "length h"], rule exI [of _ "Suc (length h)"])
    using s d1 d2 d3 f1 f2 old vc' by simp
qed

theorem setInputs_rebuilds_children_witness:
  "deref example_inputs_heap 8 = Some (InputsComp example_inputs_value [item_a, item_b] [(''a'', 7), (''b'', 5)])
   \<and> deref example_inputs_heap 7 = Some (SimpleComp (JStr ''edited''))
   \<and> deref example_inputs_heap 5 = Some (SimpleComp (JStr ''2''))
   \<and> (\<exists>r h' ra' rc'. setInputs example_inputs_heap 8 [item_a, item_c] = Inr (r, h')
        \<and> deref h' r = Some (InputsComp example_inputs_value [item_a, item_c] [(''a'', ra'), (''c'', rc')])
        \<and> deref h' ra' = Some (SimpleComp (JStr ''edited''))
        \<and> deref h' rc' = Some (SimpleComp (JStr ''9'')))"
proof -
  have d: "deref example_inputs_heap 8 = Some (InputsComp example_inputs_value [item_a, item_b] [(''a'', 7), (''b'', 5)])"
    by (simp add: example_inputs_heap_def deref_def)
  have va: "deref example_inputs_heap 7 = Some (SimpleComp (JStr ''edited''))"
    by (simp add: example_inputs_heap_def deref_def)
  have vb: "deref example_inputs_heap 5 = Some (SimpleComp (JStr ''2''))"
    by (simp add: example_inputs_heap_def deref_def)
  have c9: "(case (case example_inputs_value of None \<Rightarrow> None | Some kvs \<Rightarrow> map_of kvs ''c'') of
               Some x \<Rightarrow> if x = JUndefined then JSONValueControl_default else x
             | None \<Rightarrow> JSONValueControl_default) = JStr ''9''"
    by (simp add: example_inputs_value_def)
  have "\<exists>r h' ra' rc'. setInputs example_inputs_heap 8 [item_a, item_c] = Inr (r, h')
        \<and> deref h' r = Some (InputsComp example_inputs_value [item_a, item_c] [(''a'', ra'), (''c'', rc')])
        \<and> deref h' ra' = Some (SimpleComp (JStr ''edited''))
        \<and> deref h' rc' = Some (SimpleComp (JStr ''9''))"
  proof -
    have "\<exists>r h' ra' rc'.
      setInputs example_inputs_heap 8 [item_a, item_c] = Inr (r, h')
      \<and> deref h' r = Some (InputsComp example_inputs_value [item_a, item_c] [(''a'', ra'), (''c'', rc')])
      \<and> deref h' ra' = Some (SimpleComp (JStr ''edited''))
      \<and> ra' \<noteq> 7 \<and> deref example_inputs_heap ra' = None
      \<and> deref h' rc' =
          Some (SimpleComp
            (case (case example_inputs_value of None \<Rightarrow> None | Some kvs \<Rightarrow> map_of kvs ''c'') of
               Some x \<Rightarrow> if x = JUndefined then JSONValueControl_default else x
             | None \<Rightarrow> JSONValueControl_default))
      \<and> (\<forall>p x. deref example_inputs_heap p = Some x \<longrightarrow> deref h' p = Some x)"
      by (rule setInputs_rebuilds_children [OF d va _ vb])
        (simp_all add: item_a_def item_c_def Object_prototype_names_def)
    then show ?thesis
    proof (elim exE conjE)
      fix r h' ra' rc'
      assume s: "setInputs example_inputs_heap 8 [item_a, item_c] = Inr (r, h')"
      and d1: "deref h' r = Some (InputsComp example_inputs_value [item_a, item_c] [(''a'', ra'), (''c'', rc')])"
      and d2: "deref h' ra' = Some (SimpleComp (JStr ''edited''))"
      and d3: "deref h' rc' = Some (SimpleComp
            (case (case example_inputs_value of None \<Rightarrow> None | Some kvs \<Rightarrow> map_of kvs ''c'') of
               Some x \<Rightarrow> if x = JUndefined then JSONValueControl_default else x
             | None \<Rightarrow> JSONValueControl_default))"
    from d3 c9 have d3': "deref h' rc' = Some (SimpleComp (JStr ''9''))" by simp
    show ?thesis
      by (rule exI [of _ r], rule exI [of _ h'], rule exI [of _ ra'], rule exI [of _ rc'])
        (intro conjI, rule s, rule d1, rule d2, rule d3')
    qed
  qed
  with d va vb show ?thesis by (intro conjI)
qed

lemma example_inputs_heap_reached:
  "new_InputsComp example_inputs_value [] = (3, take 4 example_inputs_heap)
   \<and> setInputs (take 4 example_inputs_heap) 3 [item_a, item_b] = Inr (6, take 7 example_inputs_heap)
   \<and> InputsComp_reduce (take 7 example_inputs_heap) 6 (changeChildAction ''a'' (JStr ''edited''))
       = Inr (8, example_inputs_heap)"
  by (simp add: example_inputs_heap_def example_inputs_value_def item_a_def item_b_def
      new_InputsComp_def InputsComp_parseChildrenFromValue_def new_JSONValueControl_def new_leaf_def
      alloc_def js_assign_def setInputs_def deref_def SimpleComp_getView_def js_spread_def
      setInputs_childrenMap_def setFieldsNoTypeCheck_def InputsComp_reduce_def changeChildAction_def
      wrapChildAction_def changeValueAction_def SimpleComp_reduce_def)

text \<open>
  C2 as stated fails on the state \<open>example_inputs_heap\<close>, reached by
  construction, \<open>setInputs\<close> and an edit (\<open>example_inputs_heap_reached\<close>):
  after \<open>setInputs\<close> with \<open>a\<close> and \<open>c\<close> the child \<open>a\<close> is the new object 9,
  not the existing child 7, and the child \<open>c\<close> holds the persisted \<open>"9"\<close>, not
  the default.
\<close>

theorem setInputs_neither_reuses_nor_defaults:
  "deref example_inputs_heap 8
     = Some (InputsComp example_inputs_value [item_a, item_b] [(''a'', 7), (''b'', 5)])
   \<and> deref example_inputs_heap 7 = Some (SimpleComp (JStr ''edited''))
   \<and> setInputs example_inputs_heap 8 [item_a, item_c]
       = Inr (11, example_inputs_heap @
            [SimpleComp (JStr ''edited''), SimpleComp (JStr ''9''),
             InputsComp example_inputs_value [item_a, item_c] [(''a'', 9), (''c'', 10)]])
   \<and> (9 :: ref) \<noteq> 7
   \<and> JStr ''9'' \<noteq> JSONValueControl_default"
  by (simp add: example_inputs_heap_def example_inputs_value_def item_a_def item_b_def item_c_def
      alloc_def js_assign_def setInputs_def deref_def SimpleComp_getView_def js_spread_def
      new_JSONValueControl_def new_leaf_def setInputs_childrenMap_def setFieldsNoTypeCheck_def
      JSONValueControl_default_def)

section \<open>The JSON round trip\<close>


























end
